theory Spec2Isabelle
  imports Complex_Main "HOL-Library.AList"
begin

section \<open>Fleet recovery controller: \<^verbatim>\<open>drone_management.py\<close>\<close>

text \<open>
  Python floats are read as real numbers: every constant the controller uses
  (0.5, 2.0, 10, 20, 100, 0.7) and every comparison is exact there. A drone is
  a Python dict; a key that the code reads with \<^verbatim>\<open>.get(key, default)\<close> is an
  optional field (\<open>None\<close>: key absent), and the two flags that are read with
  default \<^verbatim>\<open>False\<close> are plain booleans. For \<open>battery\<close>, \<open>None\<close> stands for
  every value that fails \<^verbatim>\<open>isinstance(battery, (int, float))\<close>.
  \<^verbatim>\<open>datetime.now().isoformat()\<close> is a parameter \<open>now\<close> of each operation.

  Each coroutine is a function on the state of its controller and runs on its own:
  a task that \<^verbatim>\<open>asyncio.create_task\<close> creates is recorded, and run by applying its
  function later. Interleavings of coroutines at their \<^verbatim>\<open>await\<close> points are not
  modelled, except for the cooldown sleep of the jamming handler, at which the handler
  is split in two.
\<close>

type_synonym timestamp = string

datatype drone_status = Active | Returning | Landed | Other_status

datatype rth_reason = Low_battery | Critical_battery | Manual

datatype severity = LOW | MEDIUM | HIGH | CRITICAL

record drone =
  lat :: "real option"
  lon :: "real option"
  alt :: "real option"
  battery :: "real option"
  status :: drone_status
  returning_home :: bool
  emergency_mode :: bool
  rth_reason :: "rth_reason option"
  rth_initiated :: "timestamp option"
  landed_at :: "timestamp option"

record return_info =
  distance :: real
  eta :: real
  path :: "(real option \<times> real option) list"
  home_base :: "real \<times> real"
  emergency_speed :: bool

datatype alert_type = Auto_rth | Emergency_rth | Drone_landed

record alert =
  alert_type :: alert_type
  alert_drone_id :: string
  battery_level :: "real option"
  estimated_return_time :: "real option"
  alert_severity :: "severity option"
  landing_reason :: "rth_reason option"
  alert_timestamp :: timestamp

text \<open>Every \<^verbatim>\<open>asyncio.create_task\<close> of the manager, in creation order.\<close>

datatype task =
    Battery_monitor
  | Health_monitor
  | Position_updater
  | Return_journey string return_info
  | Emergency_return_journey string return_info

record emergency_log =
  log_drone_id :: string
  log_battery_level :: "real option"
  log_timestamp :: timestamp
  log_location :: "real option \<times> real option"

text \<open>
  The manager. \<open>drones\<close> is the dict \<^verbatim>\<open>self.drones\<close> in insertion order
  (\<open>map_of\<close> is the lookup, \<open>AList.update\<close> the store that keeps the position
  of an existing key); \<open>alerts\<close> is what \<^verbatim>\<open>notify_operators\<close> has handed to the
  registered callbacks, whose failures it catches one by one.
\<close>

record fleet =
  drones :: "(string \<times> drone) list"
  monitoring :: bool
  tasks :: "task list"
  alerts :: "alert list"
  emergency_logs :: "emergency_log list"

definition rth_threshold :: real where
  "rth_threshold = 20"

definition emergency_rth_threshold :: real where
  "emergency_rth_threshold = 10"

definition HOME_LAT :: real where
  "HOME_LAT = 287041 / 10000"

definition HOME_LON :: real where
  "HOME_LON = 771025 / 10000"

definition store_drone :: "string \<Rightarrow> drone \<Rightarrow> fleet \<Rightarrow> fleet" where
  "store_drone did d s = s\<lparr>drones := AList.update did d (drones s)\<rparr>"

text \<open>
  \<^verbatim>\<open>DroneFleetManager.start_monitoring\<close> up to its first \<^verbatim>\<open>await\<close>: the guard, the
  flag and the three tasks it creates.
\<close>

definition DroneFleetManager_start_monitoring :: "fleet \<Rightarrow> fleet" where
  "DroneFleetManager_start_monitoring s =
     (if monitoring s then s
      else s\<lparr>monitoring := True,
             tasks := tasks s @ [Battery_monitor, Health_monitor, Position_updater]\<rparr>)"

definition radians :: "real \<Rightarrow> real" where
  "radians x = x * pi / 180"

definition atan2 :: "real \<Rightarrow> real \<Rightarrow> real" where
  "atan2 y x =
     (if 0 < x then arctan (y / x)
      else if x < 0 \<and> 0 \<le> y then arctan (y / x) + pi
      else if x < 0 then arctan (y / x) - pi
      else if 0 < y then pi / 2
      else if y < 0 then - (pi / 2)
      else 0)"

definition calculate_distance :: "real \<Rightarrow> real \<Rightarrow> real \<Rightarrow> real \<Rightarrow> real" where
  "calculate_distance lat1 lon1 lat2 lon2 =
     (let R = 6371000;
          lat1_rad = radians lat1;
          lat2_rad = radians lat2;
          delta_lat = radians (lat2 - lat1);
          delta_lon = radians (lon2 - lon1);
          a = sin (delta_lat / 2) * sin (delta_lat / 2) +
              cos lat1_rad * cos lat2_rad * sin (delta_lon / 2) * sin (delta_lon / 2);
          c = 2 * atan2 (sqrt a) (sqrt (1 - a))
      in R * c)"

definition notify_operators :: "alert \<Rightarrow> fleet \<Rightarrow> fleet" where
  "notify_operators alert_data s = s\<lparr>alerts := alerts s @ [alert_data]\<rparr>"

definition calculate_return_path :: "string \<Rightarrow> fleet \<Rightarrow> return_info" where
  "calculate_return_path did s =
     (case map_of (drones s) did of
        None \<Rightarrow> \<lparr>distance = 0, eta = 0, path = [], home_base = (0, 0), emergency_speed = False\<rparr>
      | Some d \<Rightarrow>
          (let dst = calculate_distance (case lat d of None \<Rightarrow> 0 | Some v \<Rightarrow> v)
                       (case lon d of None \<Rightarrow> 0 | Some v \<Rightarrow> v) HOME_LAT HOME_LON;
               speed_m_s = (15 :: real);
               eta_seconds = (if 0 < speed_m_s then dst / speed_m_s else 0)
           in \<lparr>distance = dst, eta = eta_seconds,
               path = [(lat d, lon d), (Some HOME_LAT, Some HOME_LON)],
               home_base = (HOME_LAT, HOME_LON), emergency_speed = False\<rparr>))"

definition calculate_emergency_return :: "string \<Rightarrow> fleet \<Rightarrow> return_info" where
  "calculate_emergency_return did s =
     (let ri = calculate_return_path did s
      in ri\<lparr>eta := eta ri * (7 / 10), emergency_speed := True\<rparr>)"

definition send_rth_command :: "string \<Rightarrow> return_info \<Rightarrow> fleet \<Rightarrow> fleet" where
  "send_rth_command did ri s = s\<lparr>tasks := tasks s @ [Return_journey did ri]\<rparr>"

definition send_emergency_rth_command :: "string \<Rightarrow> return_info \<Rightarrow> fleet \<Rightarrow> fleet" where
  "send_emergency_rth_command did ri s = s\<lparr>tasks := tasks s @ [Emergency_return_journey did ri]\<rparr>"

definition auto_rth :: "timestamp \<Rightarrow> string \<Rightarrow> real \<Rightarrow> fleet \<Rightarrow> fleet" where
  "auto_rth now did battery_lvl s =
     (case map_of (drones s) did of
        None \<Rightarrow> s
      | Some d \<Rightarrow>
          (let s1 = store_drone did
                      (d\<lparr>returning_home := True, rth_reason := Some Low_battery,
                         rth_initiated := Some now, status := Returning\<rparr>) s;
               ri = calculate_return_path did s1;
               s2 = send_rth_command did ri s1
           in notify_operators
                \<lparr>alert_type = Auto_rth, alert_drone_id = did,
                 battery_level = Some battery_lvl, estimated_return_time = Some (eta ri),
                 alert_severity = Some MEDIUM, landing_reason = None,
                 alert_timestamp = now\<rparr> s2))"

definition emergency_rth :: "timestamp \<Rightarrow> string \<Rightarrow> real \<Rightarrow> fleet \<Rightarrow> fleet" where
  "emergency_rth now did battery_lvl s =
     (case map_of (drones s) did of
        None \<Rightarrow> s
      | Some d \<Rightarrow>
          (let s1 = store_drone did
                      (d\<lparr>returning_home := True, rth_reason := Some Critical_battery,
                         rth_initiated := Some now, emergency_mode := True,
                         status := Returning\<rparr>) s;
               ri = calculate_emergency_return did s1;
               s2 = send_emergency_rth_command did ri s1
           in notify_operators
                \<lparr>alert_type = Emergency_rth, alert_drone_id = did,
                 battery_level = Some battery_lvl, estimated_return_time = Some (eta ri),
                 alert_severity = Some CRITICAL, landing_reason = None,
                 alert_timestamp = now\<rparr> s2))"

text \<open>
  The body of the \<^verbatim>\<open>for drone_id, drone in list(self.drones.items())\<close> loop of
  \<^verbatim>\<open>monitor_battery_levels\<close>. \<^verbatim>\<open>status\<close> and \<^verbatim>\<open>battery\<close> are read once, before
  the trigger; the drain test reads \<^verbatim>\<open>returning_home\<close> again from the same dict
  object, so after the trigger.
\<close>

definition monitor_drone :: "timestamp \<Rightarrow> string \<Rightarrow> fleet \<Rightarrow> fleet" where
  "monitor_drone now did s =
     (case map_of (drones s) did of
        None \<Rightarrow> s
      | Some d \<Rightarrow>
          (case battery d of
             None \<Rightarrow> s
           | Some b \<Rightarrow>
               if status d = Active then
                 (let s1 = (if b \<le> emergency_rth_threshold then emergency_rth now did b s
                            else if b \<le> rth_threshold \<and> \<not> returning_home d
                            then auto_rth now did b s
                            else s)
                  in (case map_of (drones s1) did of
                        None \<Rightarrow> s1
                      | Some d1 \<Rightarrow>
                          if \<not> returning_home d1
                          then store_drone did (d1\<lparr>battery := Some (max 0 (b - 1 / 2))\<rparr>) s1
                          else s1))
               else if status d = Landed then
                 (if b < 100 then store_drone did (d\<lparr>battery := Some (min 100 (b + 2))\<rparr>) s
                  else s)
               else s))"

text \<open>One pass of the \<^verbatim>\<open>while self.monitoring\<close> loop, over the snapshot of the keys.\<close>

definition monitor_battery_levels :: "timestamp \<Rightarrow> fleet \<Rightarrow> fleet" where
  "monitor_battery_levels now s =
     foldl (\<lambda>acc did. monitor_drone now did acc) s (map fst (drones s))"

definition land_drone :: "timestamp \<Rightarrow> string \<Rightarrow> fleet \<Rightarrow> fleet" where
  "land_drone now did s =
     (case map_of (drones s) did of
        None \<Rightarrow> s
      | Some d \<Rightarrow>
          (let s1 = store_drone did
                      (d\<lparr>status := Landed, returning_home := False, emergency_mode := False,
                         lat := Some HOME_LAT, lon := Some HOME_LON, alt := Some 0,
                         landed_at := Some now\<rparr>) s
           in notify_operators
                \<lparr>alert_type = Drone_landed, alert_drone_id = did,
                 battery_level = battery d, estimated_return_time = None,
                 alert_severity = None,
                 landing_reason = (case rth_reason d of None \<Rightarrow> Some Manual | Some r \<Rightarrow> Some r),
                 alert_timestamp = now\<rparr> s1))"

text \<open>
  One iteration of \<^verbatim>\<open>for step in range(steps + 1)\<close> with \<^verbatim>\<open>steps = 10\<close>, on the
  dict object \<^verbatim>\<open>drone\<close> that the journey reads and writes.
\<close>

definition journey_step :: "real \<times> real \<Rightarrow> drone \<Rightarrow> nat \<Rightarrow> drone" where
  "journey_step home d step =
     (let progress = real step / 10;
          lat0 = (case lat d of None \<Rightarrow> fst home | Some v \<Rightarrow> v);
          lon0 = (case lon d of None \<Rightarrow> snd home | Some v \<Rightarrow> v);
          current_lat = lat0 + (fst home - lat0) * progress;
          current_lon = lon0 + (snd home - lon0) * progress;
          current_alt = max 0 ((case alt d of None \<Rightarrow> 50 | Some v \<Rightarrow> v) * (1 - progress));
          d1 = d\<lparr>lat := Some current_lat, lon := Some current_lon, alt := Some current_alt\<rparr>
      in (case battery d1 of
            None \<Rightarrow> d1
          | Some b \<Rightarrow> d1\<lparr>battery := Some (max 0 (b - 1 / 2 * (1 + progress)))\<rparr>))"

text \<open>The first \<open>k\<close> iterations of the journey loop; the whole loop is \<open>k = 11\<close>.\<close>

definition journey_steps :: "real \<times> real \<Rightarrow> nat \<Rightarrow> drone \<Rightarrow> drone" where
  "journey_steps home k d = foldl (journey_step home) d [0..<k]"

definition simulate_return_journey :: "timestamp \<Rightarrow> string \<Rightarrow> return_info \<Rightarrow> fleet \<Rightarrow> fleet" where
  "simulate_return_journey now did ri s =
     (case map_of (drones s) did of
        None \<Rightarrow> s
      | Some d \<Rightarrow> land_drone now did (store_drone did (journey_steps (home_base ri) (10 + 1) d) s))"

text \<open>
  \<open>write_ok\<close> tells whether the log file could be written; the source catches the
  failure and prints it.
\<close>

definition emergency_landing_procedures :: "bool \<Rightarrow> timestamp \<Rightarrow> string \<Rightarrow> fleet \<Rightarrow> fleet" where
  "emergency_landing_procedures write_ok now did s =
     (case map_of (drones s) did of
        None \<Rightarrow> s
      | Some d \<Rightarrow>
          if write_ok
          then s\<lparr>emergency_logs := emergency_logs s @
                   [\<lparr>log_drone_id = did, log_battery_level = battery d,
                     log_timestamp = now, log_location = (lat d, lon d)\<rparr>]\<rparr>
          else s)"

definition simulate_emergency_return_journey ::
  "bool \<Rightarrow> timestamp \<Rightarrow> string \<Rightarrow> return_info \<Rightarrow> fleet \<Rightarrow> fleet" where
  "simulate_emergency_return_journey write_ok now did ri s =
     emergency_landing_procedures write_ok now did (simulate_return_journey now did ri s)"

text \<open>The command returns its boolean result together with the new state.\<close>

definition manual_rth :: "timestamp \<Rightarrow> string \<Rightarrow> fleet \<Rightarrow> bool \<times> fleet" where
  "manual_rth now did s =
     (case map_of (drones s) did of
        Some d \<Rightarrow> (True, auto_rth now did (case battery d of None \<Rightarrow> 0 | Some b \<Rightarrow> b) s)
      | None \<Rightarrow> (False, s))"


text \<open>
  How many return journeys (plain or emergency) have been launched for a unit.
\<close>

fun is_journey_of :: "string \<Rightarrow> task \<Rightarrow> bool" where
  "is_journey_of did (Return_journey k ri) = (k = did)"
| "is_journey_of did (Emergency_return_journey k ri) = (k = did)"
| "is_journey_of did Battery_monitor = False"
| "is_journey_of did Health_monitor = False"
| "is_journey_of did Position_updater = False"

definition journeys_launched :: "string \<Rightarrow> fleet \<Rightarrow> nat" where
  "journeys_launched did s = length (filter (is_journey_of did) (tasks s))"

text \<open>
  The invariant of the data model, \<open>0 \<le> battery \<le> 100\<close>, for the unit \<open>did\<close> of a
  fleet and for one drone record.
\<close>

definition drone_battery_in_range :: "drone \<Rightarrow> bool" where
  "drone_battery_in_range d = (case battery d of None \<Rightarrow> False | Some b \<Rightarrow> 0 \<le> b \<and> b \<le> 100)"

definition battery_in_range :: "fleet \<Rightarrow> string \<Rightarrow> bool" where
  "battery_in_range s did =
     (case map_of (drones s) did of None \<Rightarrow> False | Some d \<Rightarrow> drone_battery_in_range d)"

subsection \<open>The fleet of the source and small fleets for the examples\<close>

definition new_drone :: "real \<Rightarrow> real \<Rightarrow> real \<Rightarrow> real \<Rightarrow> drone_status \<Rightarrow> drone" where
  "new_drone la lo al b st =
     \<lparr>lat = Some la, lon = Some lo, alt = Some al, battery = Some b, status = st,
      returning_home = False, emergency_mode = False, rth_reason = None,
      rth_initiated = None, landed_at = None\<rparr>"

definition empty_fleet :: fleet where
  "empty_fleet = \<lparr>drones = [], monitoring = False, tasks = [], alerts = [], emergency_logs = []\<rparr>"

definition add_drone :: "string \<Rightarrow> drone \<Rightarrow> fleet \<Rightarrow> fleet" where
  "add_drone did d s = store_drone did d s"

text \<open>\<^verbatim>\<open>sample_drones\<close>, added to the global manager when the module is loaded.\<close>

definition drone_fleet :: fleet where
  "drone_fleet =
     add_drone ''GUARD-04'' (new_drone (287020 / 10000) (770950 / 10000) 80 91 Active)
      (add_drone ''GUARD-03'' (new_drone (287000 / 10000) (771000 / 10000) 140 15 Active)
        (add_drone ''GUARD-02'' (new_drone (287055 / 10000) (771100 / 10000) (951 / 10) 25 Active)
          (add_drone ''GUARD-01'' (new_drone (287041 / 10000) (771025 / 10000) (1204 / 10) 78 Active)
            empty_fleet)))"

definition critical_fleet :: fleet where
  "critical_fleet =
     add_drone ''GUARD-05'' (new_drone (287000 / 10000) (771000 / 10000) 60 8 Active) empty_fleet"

definition flagged_drone :: drone where
  "flagged_drone =
     (new_drone (287000 / 10000) (771000 / 10000) 60 15 Active)\<lparr>emergency_mode := True\<rparr>"

definition flagged_fleet :: fleet where
  "flagged_fleet = add_drone ''GUARD-06'' flagged_drone empty_fleet"

section \<open>Signal-integrity controller: \<^verbatim>\<open>anti_jamming.py\<close>\<close>

text \<open>
  A signal sample is the dict \<^verbatim>\<open>{'timestamp', 'wifi', 'cellular'}\<close>; the probes return
  integers or \<^verbatim>\<open>None\<close>. The \<^verbatim>\<open>details\<close> payload of a breach is a dict of which the
  severity computation reads four keys with \<^verbatim>\<open>.get(key, default)\<close>; its other keys
  are carried nowhere else in the control logic and are left out.
\<close>

record signal_sample =
  sample_time :: real
  wifi :: "int option"
  cellular :: "int option"

datatype jamming_type = Signal_drop | Network | Rf_interference | Gps | Other_type string

record details =
  drop_percent :: "real option"
  packet_loss :: "real option"
  interference_level :: "real option"
  available :: "bool option"

record jamming_event =
  event_type :: jamming_type
  event_timestamp :: timestamp
  event_details :: details
  event_severity :: severity

record evidence =
  evidence_event :: jamming_event
  evidence_signal_history :: "signal_sample list"

datatype monitor_task = Signal_monitor | Network_monitor | Interference_monitor | Gps_monitor

datatype error = Evidence_write_failed

text \<open>
  The system. A callback is known by its number; \<open>notified\<close> lists the calls
  \<^verbatim>\<open>callback(jamming_event)\<close> made, \<open>created_events\<close> the events built,
  \<open>countermeasure_runs\<close> the events for which \<^verbatim>\<open>activate_countermeasures\<close> was
  entered, and \<open>cooldowns_pending\<close> the handlers suspended in \<^verbatim>\<open>asyncio.sleep(30)\<close>.
\<close>

record jamming_system =
  is_monitoring :: bool
  jamming_detected :: bool
  signal_strength_history :: "signal_sample list"
  backup_channels :: "string list"
  current_channel :: string
  alert_callbacks :: "nat list"
  monitor_tasks :: "monitor_task list"
  created_events :: "jamming_event list"
  countermeasure_runs :: "jamming_event list"
  evidence_files :: "evidence list"
  notified :: "(nat \<times> jamming_event) list"
  cooldowns_pending :: nat

definition signal_drop_threshold :: real where
  "signal_drop_threshold = 30"

definition interference_threshold :: real where
  "interference_threshold = 8 / 10"

definition packet_loss_threshold :: real where
  "packet_loss_threshold = 15"

definition anti_jamming_system :: jamming_system where
  "anti_jamming_system =
     \<lparr>is_monitoring = False, jamming_detected = False, signal_strength_history = [],
      backup_channels = [''wifi'', ''cellular'', ''ethernet''], current_channel = ''wifi'',
      alert_callbacks = [], monitor_tasks = [], created_events = [], countermeasure_runs = [],
      evidence_files = [], notified = [], cooldowns_pending = 0\<rparr>"

definition register_alert_callback :: "nat \<Rightarrow> jamming_system \<Rightarrow> jamming_system" where
  "register_alert_callback callback s = s\<lparr>alert_callbacks := alert_callbacks s @ [callback]\<rparr>"

text \<open>
  \<^verbatim>\<open>AntiJammingSystem.start_monitoring\<close> up to its first \<^verbatim>\<open>await\<close>: the flag and the
  four tasks it creates.
\<close>

definition AntiJammingSystem_start_monitoring :: "jamming_system \<Rightarrow> jamming_system" where
  "AntiJammingSystem_start_monitoring s =
     s\<lparr>is_monitoring := True,
       monitor_tasks := monitor_tasks s @
         [Signal_monitor, Network_monitor, Interference_monitor, Gps_monitor]\<rparr>"

text \<open>The slice \<^verbatim>\<open>xs[-n:]\<close> for \<open>n > 0\<close>.\<close>

definition take_last :: "nat \<Rightarrow> 'a list \<Rightarrow> 'a list" where
  "take_last n xs = drop (length xs - n) xs"

text \<open>\<^verbatim>\<open>np.var\<close> with its defaults: the mean of the squared deviations from the mean.\<close>

definition np_mean :: "real list \<Rightarrow> real" where
  "np_mean xs = sum_list xs / real (length xs)"

definition np_var :: "real list \<Rightarrow> real" where
  "np_var xs = np_mean (map (\<lambda>x. (x - np_mean xs) ^ 2) xs)"

text \<open>\<^verbatim>\<open>[s['wifi'] for s in samples if s['wifi']]\<close>: \<^verbatim>\<open>None\<close> and \<^verbatim>\<open>0\<close> are dropped.\<close>

fun wifi_values :: "signal_sample list \<Rightarrow> real list" where
  "wifi_values [] = []"
| "wifi_values (x # xs) =
     (case wifi x of
        None \<Rightarrow> wifi_values xs
      | Some v \<Rightarrow> if v \<noteq> 0 then real_of_int v # wifi_values xs else wifi_values xs)"

definition detect_rf_interference :: "jamming_system \<Rightarrow> real" where
  "detect_rf_interference s =
     (if length (signal_strength_history s) < 10 then 1 / 10
      else
        (let recent_signals = wifi_values (take_last 10 (signal_strength_history s))
         in if recent_signals = [] then 1 / 2
            else min (np_var recent_signals / 100) 1))"

definition severity_scores :: "details \<Rightarrow> (jamming_type \<times> real) list" where
  "severity_scores det =
     [(Signal_drop, (case drop_percent det of None \<Rightarrow> 0 | Some v \<Rightarrow> v) / 10),
      (Network, (case packet_loss det of None \<Rightarrow> 0 | Some v \<Rightarrow> v) / 5),
      (Rf_interference, (case interference_level det of None \<Rightarrow> 0 | Some v \<Rightarrow> v) * 100),
      (Gps, if \<not> (case available det of None \<Rightarrow> True | Some a \<Rightarrow> a) then 80 else 20)]"

definition calculate_jamming_severity :: "jamming_type \<Rightarrow> details \<Rightarrow> severity" where
  "calculate_jamming_severity jt det =
     (let score = (case map_of (severity_scores det) jt of None \<Rightarrow> 50 | Some v \<Rightarrow> v)
      in if score \<ge> 80 then CRITICAL
         else if score \<ge> 60 then HIGH
         else if score \<ge> 40 then MEDIUM
         else LOW)"

text \<open>
  The scoring as the specification words it: the score of each of the four event types,
  and the buckets with their two-sided bounds.
\<close>

fun spec_score :: "jamming_type \<Rightarrow> details \<Rightarrow> real" where
  "spec_score Signal_drop det = (case drop_percent det of None \<Rightarrow> 0 | Some v \<Rightarrow> v) / 10"
| "spec_score Network det = (case packet_loss det of None \<Rightarrow> 0 | Some v \<Rightarrow> v) / 5"
| "spec_score Rf_interference det =
     (case interference_level det of None \<Rightarrow> 0 | Some v \<Rightarrow> v) * 100"
| "spec_score Gps det = (if available det = Some False then 80 else 20)"
| "spec_score (Other_type n) det = 50"

definition spec_bucket :: "real \<Rightarrow> severity" where
  "spec_bucket score =
     (if 80 \<le> score then CRITICAL
      else if 60 \<le> score \<and> score < 80 then HIGH
      else if 40 \<le> score \<and> score < 60 then MEDIUM
      else LOW)"

definition test_channel_connectivity :: "string \<Rightarrow> bool" where
  "test_channel_connectivity channel = True"

definition switch_to_backup_channel :: "jamming_system \<Rightarrow> string \<times> jamming_system" where
  "switch_to_backup_channel s =
     (let available_channels =
            filter (\<lambda>channel. channel \<noteq> current_channel s \<and> test_channel_connectivity channel)
              (backup_channels s)
      in case available_channels of
           [] \<Rightarrow> (current_channel s, s)
         | c # cs \<Rightarrow> (c, s\<lparr>current_channel := c\<rparr>))"

text \<open>
  \<open>write_ok\<close> tells whether \<^verbatim>\<open>open\<close> and \<^verbatim>\<open>json.dump\<close> succeed. The source has no
  handler here: the exception leaves the function, and the state is as it was.
\<close>

definition store_jamming_evidence ::
  "bool \<Rightarrow> jamming_event \<Rightarrow> jamming_system \<Rightarrow> error option \<times> jamming_system" where
  "store_jamming_evidence write_ok ev s =
     (if write_ok
      then (None, s\<lparr>evidence_files := evidence_files s @
              [\<lparr>evidence_event = ev,
                evidence_signal_history = take_last 20 (signal_strength_history s)\<rparr>]\<rparr>)
      else (Some Evidence_write_failed, s))"

text \<open>
  The list of countermeasure names is local and only printed at the end, and
  \<^verbatim>\<open>enable_frequency_hopping\<close> only prints; the result is the exception, if any, and
  the state, which keeps every change made before it.
\<close>

definition activate_countermeasures ::
  "bool \<Rightarrow> jamming_event \<Rightarrow> jamming_system \<Rightarrow> error option \<times> jamming_system" where
  "activate_countermeasures write_ok ev s =
     (let s0 = s\<lparr>countermeasure_runs := countermeasure_runs s @ [ev]\<rparr>;
          s1 = (if event_type ev = Signal_drop \<or> event_type ev = Network
                then snd (switch_to_backup_channel s0) else s0)
      in store_jamming_evidence write_ok ev s1)"

definition notify_callbacks :: "jamming_event \<Rightarrow> jamming_system \<Rightarrow> jamming_system" where
  "notify_callbacks ev s =
     s\<lparr>notified := notified s @ map (\<lambda>callback. (callback, ev)) (alert_callbacks s)\<rparr>"

datatype handle_outcome = Dropped | Cooldown_started | Raised error

text \<open>The dict \<^verbatim>\<open>jamming_event\<close> that the handler builds.\<close>

definition new_jamming_event :: "timestamp \<Rightarrow> jamming_type \<Rightarrow> details \<Rightarrow> jamming_event" where
  "new_jamming_event now jt det =
     \<lparr>event_type = jt, event_timestamp = now, event_details = det,
      event_severity = calculate_jamming_severity jt det\<rparr>"

text \<open>
  \<^verbatim>\<open>handle_potential_jamming\<close> up to \<^verbatim>\<open>await asyncio.sleep(30)\<close>, and the line after the
  sleep as \<open>cooldown_elapsed\<close>, which resumes one suspended handler if there is one.
\<close>

definition handle_potential_jamming ::
  "bool \<Rightarrow> timestamp \<Rightarrow> jamming_type \<Rightarrow> details \<Rightarrow> jamming_system
     \<Rightarrow> handle_outcome \<times> jamming_system" where
  "handle_potential_jamming write_ok now jt det s =
     (if \<not> jamming_detected s then
        (let s1 = s\<lparr>jamming_detected := True\<rparr>;
             jamming_event = new_jamming_event now jt det;
             s2 = s1\<lparr>created_events := created_events s1 @ [jamming_event]\<rparr>
         in case activate_countermeasures write_ok jamming_event s2 of
              (Some e, s3) \<Rightarrow> (Raised e, s3)
            | (None, s3) \<Rightarrow>
                (Cooldown_started,
                 (notify_callbacks jamming_event s3)\<lparr>cooldowns_pending := cooldowns_pending s3 + 1\<rparr>))
      else (Dropped, s))"

definition cooldown_elapsed :: "jamming_system \<Rightarrow> jamming_system" where
  "cooldown_elapsed s =
     (if cooldowns_pending s = 0 then s
      else s\<lparr>jamming_detected := False, cooldowns_pending := cooldowns_pending s - 1\<rparr>)"

text \<open>One pass of the loop of \<^verbatim>\<open>monitor_interference\<close>.\<close>

definition monitor_interference ::
  "bool \<Rightarrow> timestamp \<Rightarrow> jamming_system \<Rightarrow> jamming_system" where
  "monitor_interference write_ok now s =
     (let lvl = detect_rf_interference s
      in if lvl > interference_threshold
         then snd (handle_potential_jamming write_ok now Rf_interference
                \<lparr>drop_percent = None, packet_loss = None, interference_level = Some lvl,
                 available = None\<rparr> s)
         else s)"

text \<open>
  What can happen to the coordinator, in any order: a breach reported by one of the
  monitors (with the outcome of its evidence write), or the end of a cooldown sleep.
\<close>

datatype jam_action = Breach bool timestamp jamming_type details | Cooldown_elapsed

fun jam_step :: "jamming_system \<Rightarrow> jam_action \<Rightarrow> jamming_system" where
  "jam_step s (Breach write_ok now jt det) = snd (handle_potential_jamming write_ok now jt det s)"
| "jam_step s Cooldown_elapsed = cooldown_elapsed s"

fun is_breach :: "jam_action \<Rightarrow> bool" where
  "is_breach (Breach write_ok now jt det) = True"
| "is_breach Cooldown_elapsed = False"

definition jam_run :: "jamming_system \<Rightarrow> jam_action list \<Rightarrow> jamming_system" where
  "jam_run s acts = foldl jam_step s acts"

subsection \<open>Payloads and states for the examples\<close>

definition no_details :: details where
  "no_details =
     \<lparr>drop_percent = None, packet_loss = None, interference_level = None, available = None\<rparr>"

definition total_loss :: details where
  "total_loss = no_details\<lparr>packet_loss := Some 100\<rparr>"

definition loss_of :: "real \<Rightarrow> details" where
  "loss_of p = no_details\<lparr>packet_loss := Some p\<rparr>"

definition app_system :: jamming_system where
  "app_system = register_alert_callback 0 anti_jamming_system"

definition sample_of :: "int \<Rightarrow> signal_sample" where
  "sample_of w = \<lparr>sample_time = 0, wifi = Some w, cellular = Some 60\<rparr>"

definition sparse_system :: jamming_system where
  "sparse_system =
     anti_jamming_system\<lparr>signal_strength_history := map sample_of [0, 0, 0, 0, 0, 0, 0, 0, 45, 80]\<rparr>"

lemma map_of_store_drone:
  "map_of (drones (store_drone k v s)) = (map_of (drones s))(k \<mapsto> v)"
  by (simp add: store_drone_def update_conv')

lemma drones_auto_rth:
  "map_of (drones (auto_rth now did b s)) =
     (case map_of (drones s) did of
        None \<Rightarrow> map_of (drones s)
      | Some d \<Rightarrow> (map_of (drones s))(did \<mapsto>
          d\<lparr>returning_home := True, rth_reason := Some Low_battery,
            rth_initiated := Some now, status := Returning\<rparr>))"
  by (simp add: auto_rth_def Let_def notify_operators_def send_rth_command_def
      map_of_store_drone split: option.split)

lemma drones_emergency_rth:
  "map_of (drones (emergency_rth now did b s)) =
     (case map_of (drones s) did of
        None \<Rightarrow> map_of (drones s)
      | Some d \<Rightarrow> (map_of (drones s))(did \<mapsto>
          d\<lparr>returning_home := True, rth_reason := Some Critical_battery,
            rth_initiated := Some now, emergency_mode := True, status := Returning\<rparr>))"
  by (simp add: emergency_rth_def Let_def notify_operators_def send_emergency_rth_command_def
      map_of_store_drone split: option.split)

lemma monitor_drone_other:
  "k \<noteq> did \<Longrightarrow> map_of (drones (monitor_drone now k s)) did = map_of (drones s) did"
  by (simp add: monitor_drone_def Let_def map_of_store_drone drones_auto_rth drones_emergency_rth
      split: option.split)

lemma monitor_drone_returning:
  "map_of (drones s) did = Some d \<Longrightarrow> status d = Returning \<Longrightarrow> monitor_drone now did s = s"
  by (simp add: monitor_drone_def split: option.split)

lemma foldl_monitor_other:
  "did \<notin> set ks \<Longrightarrow>
   map_of (drones (foldl (\<lambda>acc k. monitor_drone now k acc) s ks)) did = map_of (drones s) did"
  by (induction ks arbitrary: s) (auto simp: monitor_drone_other)

lemma foldl_monitor_returning:
  "map_of (drones s) did = Some d \<Longrightarrow> status d = Returning \<Longrightarrow>
   map_of (drones (foldl (\<lambda>acc k. monitor_drone now k acc) s ks)) did = Some d"
proof (induction ks arbitrary: s)
  case Nil
  then show ?case by simp
next
  case (Cons k ks)
  show ?case
  proof (cases "k = did")
    case True
    with Cons.prems have "monitor_drone now k s = s"
      by (simp add: monitor_drone_returning)
    with Cons show ?thesis by simp
  next
    case False
    then have "map_of (drones (monitor_drone now k s)) did = Some d"
      using Cons.prems by (simp add: monitor_drone_other)
    with Cons show ?thesis by simp
  qed
qed

lemma monitor_drone_emergency:
  "map_of (drones s) did = Some d \<Longrightarrow> status d = Active \<Longrightarrow> battery d = Some b \<Longrightarrow> b \<le> 10 \<Longrightarrow>
   map_of (drones (monitor_drone now did s)) did =
     Some (d\<lparr>returning_home := True, rth_reason := Some Critical_battery,
            rth_initiated := Some now, emergency_mode := True, status := Returning\<rparr>)"
  by (simp add: monitor_drone_def Let_def emergency_rth_threshold_def drones_emergency_rth)

lemma monitor_drone_auto:
  "map_of (drones s) did = Some d \<Longrightarrow> status d = Active \<Longrightarrow> battery d = Some b \<Longrightarrow>
   10 < b \<Longrightarrow> b \<le> 20 \<Longrightarrow> \<not> returning_home d \<Longrightarrow>
   map_of (drones (monitor_drone now did s)) did =
     Some (d\<lparr>returning_home := True, rth_reason := Some Low_battery,
            rth_initiated := Some now, status := Returning\<rparr>)"
  by (simp add: monitor_drone_def Let_def emergency_rth_threshold_def rth_threshold_def
      drones_auto_rth)

lemma cycle_from_first:
  assumes "map_of (drones s) did = Some d"
    and "\<And>s'. map_of (drones s') did = Some d \<Longrightarrow> map_of (drones (monitor_drone now did s')) did = Some d'"
    and "status d' = Returning"
  shows "map_of (drones (monitor_battery_levels now s)) did = Some d'"
proof -
  from assms(1) have "did \<in> set (map fst (drones s))"
    by (metis map_of_eq_None_iff option.distinct(1) set_map)
  then obtain xs ys where ks: "map fst (drones s) = xs @ did # ys" and nin: "did \<notin> set xs"
    by (meson split_list_first)
  let ?f = "\<lambda>acc k. monitor_drone now k acc"
  have "map_of (drones (foldl ?f s xs)) did = Some d"
    using nin assms(1) by (simp add: foldl_monitor_other)
  then have "map_of (drones (monitor_drone now did (foldl ?f s xs))) did = Some d'"
    by (rule assms(2))
  then have "map_of (drones (foldl ?f (monitor_drone now did (foldl ?f s xs)) ys)) did = Some d'"
    using assms(3) by (rule foldl_monitor_returning)
  then show ?thesis
    by (simp add: monitor_battery_levels_def ks)
qed


lemma tasks_notify [simp]: "tasks (notify_operators a s) = tasks s"
  by (simp add: notify_operators_def)

lemma tasks_store_drone [simp]: "tasks (store_drone k v s) = tasks s"
  by (simp add: store_drone_def)

lemma tasks_auto_rth:
  "tasks (auto_rth now did b s) =
     (case map_of (drones s) did of
        None \<Rightarrow> tasks s
      | Some d \<Rightarrow> tasks s @ [Return_journey did (calculate_return_path did
          (store_drone did (d\<lparr>returning_home := True, rth_reason := Some Low_battery,
            rth_initiated := Some now, status := Returning\<rparr>) s))])"
  by (simp add: auto_rth_def Let_def send_rth_command_def split: option.split)

lemma tasks_emergency_rth:
  "tasks (emergency_rth now did b s) =
     (case map_of (drones s) did of
        None \<Rightarrow> tasks s
      | Some d \<Rightarrow> tasks s @ [Emergency_return_journey did (calculate_emergency_return did
          (store_drone did (d\<lparr>returning_home := True, rth_reason := Some Critical_battery,
            rth_initiated := Some now, emergency_mode := True, status := Returning\<rparr>) s))])"
  by (simp add: emergency_rth_def Let_def send_emergency_rth_command_def split: option.split)

lemma tasks_monitor_drone_mono:
  "x \<in> set (tasks s) \<Longrightarrow> x \<in> set (tasks (monitor_drone now k s))"
  by (auto simp: monitor_drone_def Let_def tasks_auto_rth tasks_emergency_rth
      split: option.split)

lemma tasks_foldl_monitor_mono:
  "x \<in> set (tasks s) \<Longrightarrow> x \<in> set (tasks (foldl (\<lambda>acc k. monitor_drone now k acc) s ks))"
  by (induction ks arbitrary: s) (auto simp: tasks_monitor_drone_mono)

lemma cycle_split:
  assumes "map_of (drones s) did = Some d"
  obtains s1 ys where
    "monitor_battery_levels now s =
       foldl (\<lambda>acc k. monitor_drone now k acc) (monitor_drone now did s1) ys"
    and "map_of (drones s1) did = Some d"
proof -
  from assms have "did \<in> set (map fst (drones s))"
    by (metis map_of_eq_None_iff option.distinct(1) set_map)
  then obtain xs ys where ks: "map fst (drones s) = xs @ did # ys" and nin: "did \<notin> set xs"
    by (meson split_list_first)
  let ?f = "\<lambda>acc k. monitor_drone now k acc"
  have "map_of (drones (foldl ?f s xs)) did = Some d"
    using nin assms by (simp add: foldl_monitor_other)
  moreover have "monitor_battery_levels now s = foldl ?f (monitor_drone now did (foldl ?f s xs)) ys"
    by (simp add: monitor_battery_levels_def ks)
  ultimately show thesis using that by blast
qed

lemma tasks_monitor_drone_emergency:
  "map_of (drones s) did = Some d \<Longrightarrow> status d = Active \<Longrightarrow> battery d = Some b \<Longrightarrow> b \<le> 10 \<Longrightarrow>
   \<exists>ri. Emergency_return_journey did ri \<in> set (tasks (monitor_drone now did s))"
  by (auto simp: monitor_drone_def Let_def emergency_rth_threshold_def drones_emergency_rth
      tasks_emergency_rth)

lemma tasks_monitor_drone_auto:
  "map_of (drones s) did = Some d \<Longrightarrow> status d = Active \<Longrightarrow> battery d = Some b \<Longrightarrow>
   10 < b \<Longrightarrow> b \<le> 20 \<Longrightarrow> \<not> returning_home d \<Longrightarrow>
   \<exists>ri. Return_journey did ri \<in> set (tasks (monitor_drone now did s))"
  by (auto simp: monitor_drone_def Let_def emergency_rth_threshold_def rth_threshold_def
      drones_auto_rth tasks_auto_rth)

lemma cycle_emergency:
  assumes "map_of (drones s) did = Some d" "status d = Active" "battery d = Some b" "b \<le> 10"
  shows "map_of (drones (monitor_battery_levels now s)) did =
           Some (d\<lparr>returning_home := True, rth_reason := Some Critical_battery,
                  rth_initiated := Some now, emergency_mode := True, status := Returning\<rparr>)"
    and "\<exists>ri. Emergency_return_journey did ri \<in> set (tasks (monitor_battery_levels now s))"
proof -
  obtain s1 ys where eq: "monitor_battery_levels now s =
       foldl (\<lambda>acc k. monitor_drone now k acc) (monitor_drone now did s1) ys"
    and s1: "map_of (drones s1) did = Some d"
    using assms(1) by (rule cycle_split)
  have "map_of (drones (monitor_drone now did s1)) did =
          Some (d\<lparr>returning_home := True, rth_reason := Some Critical_battery,
                 rth_initiated := Some now, emergency_mode := True, status := Returning\<rparr>)"
    using s1 assms(2-4) by (rule monitor_drone_emergency)
  then show "map_of (drones (monitor_battery_levels now s)) did =
           Some (d\<lparr>returning_home := True, rth_reason := Some Critical_battery,
                  rth_initiated := Some now, emergency_mode := True, status := Returning\<rparr>)"
    unfolding eq by (rule foldl_monitor_returning) simp
  from tasks_monitor_drone_emergency [OF s1 assms(2-4)]
  show "\<exists>ri. Emergency_return_journey did ri \<in> set (tasks (monitor_battery_levels now s))"
    unfolding eq by (blast intro: tasks_foldl_monitor_mono)
qed

lemma cycle_auto:
  assumes "map_of (drones s) did = Some d" "status d = Active" "battery d = Some b"
    "10 < b" "b \<le> 20" "\<not> returning_home d"
  shows "map_of (drones (monitor_battery_levels now s)) did =
           Some (d\<lparr>returning_home := True, rth_reason := Some Low_battery,
                  rth_initiated := Some now, status := Returning\<rparr>)"
    and "\<exists>ri. Return_journey did ri \<in> set (tasks (monitor_battery_levels now s))"
proof -
  obtain s1 ys where eq: "monitor_battery_levels now s =
       foldl (\<lambda>acc k. monitor_drone now k acc) (monitor_drone now did s1) ys"
    and s1: "map_of (drones s1) did = Some d"
    using assms(1) by (rule cycle_split)
  have "map_of (drones (monitor_drone now did s1)) did =
          Some (d\<lparr>returning_home := True, rth_reason := Some Low_battery,
                 rth_initiated := Some now, status := Returning\<rparr>)"
    using s1 assms(2-6) by (rule monitor_drone_auto)
  then show "map_of (drones (monitor_battery_levels now s)) did =
           Some (d\<lparr>returning_home := True, rth_reason := Some Low_battery,
                  rth_initiated := Some now, status := Returning\<rparr>)"
    unfolding eq by (rule foldl_monitor_returning) simp
  from tasks_monitor_drone_auto [OF s1 assms(2-6)]
  show "\<exists>ri. Return_journey did ri \<in> set (tasks (monitor_battery_levels now s))"
    unfolding eq by (blast intro: tasks_foldl_monitor_mono)
qed


text \<open>
  Claim C1, as the code has it. For a unit that is \<open>Active\<close> with a numeric battery
  \<open>b\<close>: if \<open>b \<le> 10\<close>, one pass of the battery monitor triggers the emergency return
  (an emergency journey task is launched) and leaves the unit \<open>Returning\<close> with
  \<open>returning_home\<close>, \<open>emergency_mode\<close> and reason \<open>Critical_battery\<close>; if
  \<open>10 < b \<le> 20\<close> and the unit is not returning, the pass triggers the automatic return
  (a journey task is launched) and leaves it \<open>Returning\<close> with \<open>returning_home\<close> and
  reason \<open>Low_battery\<close>, and \<open>emergency_mode\<close> as it was before the pass:
  \<^verbatim>\<open>auto_rth\<close> does not write that key.
\<close>

theorem monitor_cycle_rth_trigger:
  assumes "map_of (drones s) did = Some d" and "status d = Active" and "battery d = Some b"
  shows "(b \<le> 10 \<longrightarrow>
            (\<exists>d'. map_of (drones (monitor_battery_levels now s)) did = Some d' \<and>
                  status d' = Returning \<and> returning_home d' \<and> emergency_mode d' \<and>
                  rth_reason d' = Some Critical_battery) \<and>
            (\<exists>ri. Emergency_return_journey did ri \<in> set (tasks (monitor_battery_levels now s)))) \<and>
         (10 < b \<and> b \<le> 20 \<and> \<not> returning_home d \<longrightarrow>
            (\<exists>d'. map_of (drones (monitor_battery_levels now s)) did = Some d' \<and>
                  status d' = Returning \<and> returning_home d' \<and>
                  rth_reason d' = Some Low_battery \<and> emergency_mode d' = emergency_mode d) \<and>
            (\<exists>ri. Return_journey did ri \<in> set (tasks (monitor_battery_levels now s))))"
proof (intro conjI impI)
  assume low: "b \<le> 10"
  from cycle_emergency(1) [OF assms low, of now]
  show "\<exists>d'. map_of (drones (monitor_battery_levels now s)) did = Some d' \<and>
          status d' = Returning \<and> returning_home d' \<and> emergency_mode d' \<and>
          rth_reason d' = Some Critical_battery"
    by simp
  from cycle_emergency(2) [OF assms low]
  show "\<exists>ri. Emergency_return_journey did ri \<in> set (tasks (monitor_battery_levels now s))" .
next
  assume mid: "10 < b \<and> b \<le> 20 \<and> \<not> returning_home d"
  then have m: "10 < b" "b \<le> 20" "\<not> returning_home d" by simp_all
  from cycle_auto(1) [OF assms m, of now]
  show "\<exists>d'. map_of (drones (monitor_battery_levels now s)) did = Some d' \<and>
          status d' = Returning \<and> returning_home d' \<and>
          rth_reason d' = Some Low_battery \<and> emergency_mode d' = emergency_mode d"
    by simp
  from cycle_auto(2) [OF assms m]
  show "\<exists>ri. Return_journey did ri \<in> set (tasks (monitor_battery_levels now s))" .
qed

lemma lookup_drone_fleet_3:
  "map_of (drones drone_fleet) ''GUARD-03'' =
     Some (new_drone (287000 / 10000) (771000 / 10000) 140 15 Active)"
  by (simp add: drone_fleet_def add_drone_def store_drone_def empty_fleet_def)

lemma lookup_critical_fleet:
  "map_of (drones critical_fleet) ''GUARD-05'' =
     Some (new_drone (287000 / 10000) (771000 / 10000) 60 8 Active)"
  by (simp add: critical_fleet_def add_drone_def store_drone_def empty_fleet_def)

lemma lookup_flagged_fleet:
  "map_of (drones flagged_fleet) ''GUARD-06'' = Some flagged_drone"
  by (simp add: flagged_fleet_def add_drone_def store_drone_def empty_fleet_def)

theorem monitor_cycle_rth_trigger_witness:
  "map_of (drones critical_fleet) ''GUARD-05'' =
     Some (new_drone (287000 / 10000) (771000 / 10000) 60 8 Active) \<and>
   (\<exists>d'. map_of (drones (monitor_battery_levels ''t1'' critical_fleet)) ''GUARD-05'' = Some d' \<and>
         status d' = Returning \<and> returning_home d' \<and> emergency_mode d' \<and>
         rth_reason d' = Some Critical_battery) \<and>
   map_of (drones drone_fleet) ''GUARD-03'' =
     Some (new_drone (287000 / 10000) (771000 / 10000) 140 15 Active) \<and>
   (\<exists>d'. map_of (drones (monitor_battery_levels ''t1'' drone_fleet)) ''GUARD-03'' = Some d' \<and>
         status d' = Returning \<and> returning_home d' \<and>
         rth_reason d' = Some Low_battery \<and> \<not> emergency_mode d')"
  using monitor_cycle_rth_trigger [OF lookup_critical_fleet, of 8 "''t1''"]
    monitor_cycle_rth_trigger [OF lookup_drone_fleet_3, of 15 "''t1''"]
    lookup_critical_fleet lookup_drone_fleet_3
  by (simp add: new_drone_def)

text \<open>
  The claim as worded promises \<open>emergency_mode = false\<close> after the automatic return for
  every active, non-returning unit. A unit that is active with battery 15, not returning,
  and whose record carries \<open>emergency_mode = True\<close> keeps that flag through the pass.
\<close>

theorem auto_rth_keeps_emergency_mode_counterexample:
  "map_option status (map_of (drones flagged_fleet) ''GUARD-06'') = Some Active \<and>
   map_option battery (map_of (drones flagged_fleet) ''GUARD-06'') = Some (Some 15) \<and>
   map_option returning_home (map_of (drones flagged_fleet) ''GUARD-06'') = Some False \<and>
   map_option rth_reason (map_of (drones (monitor_battery_levels ''t1'' flagged_fleet)) ''GUARD-06'')
     = Some (Some Low_battery) \<and>
   map_option emergency_mode (map_of (drones (monitor_battery_levels ''t1'' flagged_fleet)) ''GUARD-06'')
     = Some True"
proof -
  have "map_of (drones (monitor_battery_levels ''t1'' flagged_fleet)) ''GUARD-06'' =
          Some (flagged_drone\<lparr>returning_home := True, rth_reason := Some Low_battery,
                  rth_initiated := Some ''t1'', status := Returning\<rparr>)"
    by (rule cycle_auto(1) [OF lookup_flagged_fleet, of 15])
      (simp_all add: flagged_drone_def new_drone_def)
  then show ?thesis
    by (simp add: lookup_flagged_fleet) (simp add: flagged_drone_def new_drone_def)
qed

subsection \<open>The return journey and the landing\<close>

lemma battery_journey_step:
  "battery (journey_step home d k) =
     (case battery d of
        None \<Rightarrow> None
      | Some b \<Rightarrow> Some (max 0 (b - 1 / 2 * (1 + real k / 10))))"
  by (simp add: journey_step_def Let_def split: option.split)

lemma journey_steps_Suc:
  "journey_steps home (Suc k) d = journey_step home (journey_steps home k d) k"
  by (simp add: journey_steps_def)

lemma journey_steps_0: "journey_steps home 0 d = d"
  by (simp add: journey_steps_def)

lemma battery_journey_steps_None:
  "battery d = None \<Longrightarrow> battery (journey_steps home k d) = None"
  by (induction k) (simp_all add: journey_steps_0 journey_steps_Suc battery_journey_step)

lemma battery_journey_steps_Some:
  "battery d = Some b \<Longrightarrow> \<exists>b'. battery (journey_steps home k d) = Some b'"
  by (induction k) (auto simp: journey_steps_0 journey_steps_Suc battery_journey_step)

lemma battery_journey_steps_nonneg:
  assumes "battery d = Some b"
  shows "\<exists>b'. battery (journey_steps home (Suc k) d) = Some b' \<and> 0 \<le> b'"
proof -
  from assms obtain c where "battery (journey_steps home k d) = Some c"
    using battery_journey_steps_Some by blast
  then show ?thesis
    by (simp add: journey_steps_Suc battery_journey_step)
qed

lemma journey_step_in_range:
  assumes "drone_battery_in_range d"
  shows "drone_battery_in_range (journey_step home d k)"
proof -
  from assms obtain b where b: "battery d = Some b" "0 \<le> b" "b \<le> 100"
    by (auto simp: drone_battery_in_range_def split: option.splits)
  have "0 \<le> 1 / 2 * (1 + real k / 10)" by simp
  with b have "b - 1 / 2 * (1 + real k / 10) \<le> 100" by linarith
  with b show ?thesis
    by (simp add: drone_battery_in_range_def battery_journey_step)
qed

lemma journey_steps_in_range:
  "drone_battery_in_range d \<Longrightarrow> drone_battery_in_range (journey_steps home k d)"
  by (induction k) (simp_all add: journey_steps_0 journey_steps_Suc journey_step_in_range)

lemma drones_land_drone:
  "map_of (drones (land_drone now did s)) =
     (case map_of (drones s) did of
        None \<Rightarrow> map_of (drones s)
      | Some d \<Rightarrow> (map_of (drones s))(did \<mapsto>
          d\<lparr>status := Landed, returning_home := False, emergency_mode := False,
            lat := Some HOME_LAT, lon := Some HOME_LON, alt := Some 0,
            landed_at := Some now\<rparr>))"
  by (simp add: land_drone_def Let_def notify_operators_def map_of_store_drone
      split: option.split)

lemma drones_simulate_return_journey:
  "map_of (drones (simulate_return_journey now did ri s)) =
     (case map_of (drones s) did of
        None \<Rightarrow> map_of (drones s)
      | Some d \<Rightarrow> (map_of (drones s))(did \<mapsto>
          (journey_steps (home_base ri) 11 d)
            \<lparr>status := Landed, returning_home := False, emergency_mode := False,
             lat := Some HOME_LAT, lon := Some HOME_LON, alt := Some 0,
             landed_at := Some now\<rparr>))"
  by (simp add: simulate_return_journey_def drones_land_drone map_of_store_drone
      split: option.split)

lemma keys_store_drone:
  "map_of (drones s) did = Some d \<Longrightarrow>
   map fst (drones (store_drone did d' s)) = map fst (drones s)"
  by (simp add: store_drone_def update_keys map_of_eq_None_iff [symmetric])

lemma keys_land_drone: "map fst (drones (land_drone now did s)) = map fst (drones s)"
  by (simp add: land_drone_def Let_def notify_operators_def keys_store_drone split: option.split)

lemma keys_simulate_return_journey:
  "map fst (drones (simulate_return_journey now did ri s)) = map fst (drones s)"
  by (simp add: simulate_return_journey_def keys_land_drone keys_store_drone split: option.split)

lemma drones_emergency_landing_procedures:
  "drones (emergency_landing_procedures write_ok now did s) = drones s"
  by (simp add: emergency_landing_procedures_def split: option.split)

text \<open>
  Claim C7. When the return journey of a unit of the fleet runs to its end (plain, or
  emergency with either outcome of the log write), the unit is \<open>Landed\<close>, with
  \<open>returning_home\<close> and \<open>emergency_mode\<close> false, at the home-base coordinates with
  altitude 0 and a landing timestamp; a numeric battery is still numeric and not below 0;
  and the fleet has the same unit ids in the same order, so no record was deleted.
\<close>

theorem journey_completion_lands_unit:
  assumes "map_of (drones s) did = Some d"
  shows "(\<exists>d'. map_of (drones (simulate_return_journey now did ri s)) did = Some d' \<and>
            status d' = Landed \<and> \<not> returning_home d' \<and> \<not> emergency_mode d' \<and>
            lat d' = Some (287041 / 10000) \<and> lon d' = Some (771025 / 10000) \<and>
            alt d' = Some 0 \<and> landed_at d' = Some now \<and>
            (case battery d of
               None \<Rightarrow> battery d' = None
             | Some b \<Rightarrow> \<exists>b'. battery d' = Some b' \<and> 0 \<le> b')) \<and>
         map fst (drones (simulate_return_journey now did ri s)) = map fst (drones s) \<and>
         drones (simulate_emergency_return_journey write_ok now did ri s) =
           drones (simulate_return_journey now did ri s)"
proof (intro conjI)
  let ?d = "journey_steps (home_base ri) 11 d"
  have bat: "case battery d of None \<Rightarrow> battery ?d = None
             | Some b \<Rightarrow> \<exists>b'. battery ?d = Some b' \<and> 0 \<le> b'"
  proof (cases "battery d")
    case None
    then show ?thesis by (simp add: battery_journey_steps_None)
  next
    case (Some b)
    from battery_journey_steps_nonneg [OF Some, of "home_base ri" 10]
    show ?thesis using Some by (simp add: eval_nat_numeral)
  qed
  show "\<exists>d'. map_of (drones (simulate_return_journey now did ri s)) did = Some d' \<and>
            status d' = Landed \<and> \<not> returning_home d' \<and> \<not> emergency_mode d' \<and>
            lat d' = Some (287041 / 10000) \<and> lon d' = Some (771025 / 10000) \<and>
            alt d' = Some 0 \<and> landed_at d' = Some now \<and>
            (case battery d of
               None \<Rightarrow> battery d' = None
             | Some b \<Rightarrow> \<exists>b'. battery d' = Some b' \<and> 0 \<le> b')"
    using assms bat
    by (simp add: drones_simulate_return_journey HOME_LAT_def HOME_LON_def split: option.splits)
  show "map fst (drones (simulate_return_journey now did ri s)) = map fst (drones s)"
    by (rule keys_simulate_return_journey)
  show "drones (simulate_emergency_return_journey write_ok now did ri s) =
          drones (simulate_return_journey now did ri s)"
    by (simp add: simulate_emergency_return_journey_def drones_emergency_landing_procedures)
qed

theorem journey_completion_lands_unit_witness:
  "map_of (drones drone_fleet) ''GUARD-03'' =
     Some (new_drone (287000 / 10000) (771000 / 10000) 140 15 Active) \<and>
   (\<exists>d'. map_of (drones (simulate_return_journey ''t2'' ''GUARD-03''
             (calculate_return_path ''GUARD-03'' drone_fleet) drone_fleet)) ''GUARD-03'' = Some d' \<and>
         status d' = Landed \<and> \<not> returning_home d' \<and> \<not> emergency_mode d' \<and>
         lat d' = Some (287041 / 10000) \<and> lon d' = Some (771025 / 10000) \<and>
         alt d' = Some 0 \<and> landed_at d' = Some ''t2'' \<and>
         (\<exists>b'. battery d' = Some b' \<and> 0 \<le> b'))"
  using journey_completion_lands_unit [OF lookup_drone_fleet_3, of "''t2''"
      "calculate_return_path ''GUARD-03'' drone_fleet" True]
    lookup_drone_fleet_3
  by (simp add: new_drone_def)

subsection \<open>The manual command\<close>

text \<open>
  Claim C9. For a unit id that is not in the fleet, the manual command returns \<open>False\<close>
  and the manager is exactly as before: no record changed, no task launched, no alert
  sent. For a unit id that is in the fleet it returns \<open>True\<close>. The command is a total
  function of the model: it raises in neither case.
\<close>

theorem manual_rth_unknown_fails_without_effect:
  "(map_of (drones s) did = None \<longrightarrow> manual_rth now did s = (False, s)) \<and>
   (map_of (drones s) did \<noteq> None \<longrightarrow> fst (manual_rth now did s) = True)"
  by (auto simp: manual_rth_def)

lemma lookup_drone_fleet_99: "map_of (drones drone_fleet) ''GUARD-99'' = None"
  by (simp add: drone_fleet_def add_drone_def store_drone_def empty_fleet_def)

theorem manual_rth_unknown_fails_without_effect_witness:
  "map_of (drones drone_fleet) ''GUARD-99'' = None \<and>
   manual_rth ''t1'' ''GUARD-99'' drone_fleet = (False, drone_fleet) \<and>
   map_of (drones drone_fleet) ''GUARD-03'' \<noteq> None \<and>
   fst (manual_rth ''t1'' ''GUARD-03'' drone_fleet) = True"
  using manual_rth_unknown_fails_without_effect [of drone_fleet "''GUARD-99''" "''t1''"]
    manual_rth_unknown_fails_without_effect [of drone_fleet "''GUARD-03''" "''t1''"]
    lookup_drone_fleet_99 lookup_drone_fleet_3
  by simp

subsection \<open>The battery stays within 0 and 100\<close>

lemma monitor_drone_in_range_same:
  assumes "battery_in_range s did"
  shows "battery_in_range (monitor_drone now did s) did"
proof -
  from assms obtain d b where d: "map_of (drones s) did = Some d"
    and b: "battery d = Some b" "0 \<le> b" "b \<le> 100"
    by (auto simp: battery_in_range_def drone_battery_in_range_def split: option.splits)
  have drain: "0 \<le> max 0 (b - 1 / 2) \<and> max 0 (b - 1 / 2) \<le> 100"
    using b by simp
  have charge: "0 \<le> min 100 (b + 2) \<and> min 100 (b + 2) \<le> 100"
    using b by simp
  show ?thesis
    using d b drain charge
    by (simp add: monitor_drone_def Let_def battery_in_range_def drone_battery_in_range_def
        map_of_store_drone drones_auto_rth drones_emergency_rth)
qed

lemma monitor_drone_in_range:
  "battery_in_range s did \<Longrightarrow> battery_in_range (monitor_drone now k s) did"
proof (cases "k = did")
  case True
  assume "battery_in_range s did"
  with True show ?thesis by (simp add: monitor_drone_in_range_same)
next
  case False
  assume "battery_in_range s did"
  with False show ?thesis by (simp add: battery_in_range_def monitor_drone_other)
qed

lemma foldl_monitor_in_range:
  "battery_in_range s did \<Longrightarrow>
   battery_in_range (foldl (\<lambda>acc k. monitor_drone now k acc) s ks) did"
  by (induction ks arbitrary: s) (simp_all add: monitor_drone_in_range)

lemma journey_in_range:
  assumes "battery_in_range s did"
  shows "battery_in_range (simulate_return_journey now j ri s) did"
proof (cases "map_of (drones s) j")
  case None
  with assms show ?thesis by (simp add: simulate_return_journey_def)
next
  case (Some dj)
  show ?thesis
  proof (cases "j = did")
    case True
    with assms Some have "drone_battery_in_range dj"
      by (simp add: battery_in_range_def)
    then have "drone_battery_in_range (journey_steps (home_base ri) 11 dj)"
      by (rule journey_steps_in_range)
    then show ?thesis using True Some
      by (simp add: battery_in_range_def drones_simulate_return_journey
          drone_battery_in_range_def)
  next
    case False
    with assms Some show ?thesis
      by (simp add: battery_in_range_def drones_simulate_return_journey)
  qed
qed

lemma partial_journey_in_range:
  assumes "battery_in_range s did" and "map_of (drones s) j = Some dj"
  shows "battery_in_range (store_drone j (journey_steps home k dj) s) did"
proof (cases "j = did")
  case True
  with assms have "drone_battery_in_range dj"
    by (simp add: battery_in_range_def)
  then have "drone_battery_in_range (journey_steps home k dj)"
    by (rule journey_steps_in_range)
  with True show ?thesis
    by (simp add: battery_in_range_def map_of_store_drone)
next
  case False
  with assms show ?thesis
    by (simp add: battery_in_range_def map_of_store_drone)
qed

text \<open>
  Claim C8. If the battery of a unit is within 0 and 100, it is within 0 and 100 after
  one pass of the battery monitor over the fleet (which drains the active units and
  charges the landed ones), after any number \<open>k\<close> of steps of the return journey of any
  unit \<open>j\<close>, and after a whole return journey with its landing.
\<close>

theorem battery_stays_in_range:
  assumes "battery_in_range s did"
  shows "battery_in_range (monitor_battery_levels now s) did \<and>
         (\<forall>j dj home k. map_of (drones s) j = Some dj \<longrightarrow>
            battery_in_range (store_drone j (journey_steps home k dj) s) did) \<and>
         (\<forall>j ri. battery_in_range (simulate_return_journey now j ri s) did)"
  using assms
  by (simp add: monitor_battery_levels_def foldl_monitor_in_range partial_journey_in_range
      journey_in_range)

lemma drone_fleet_3_in_range: "battery_in_range drone_fleet ''GUARD-03''"
  by (simp add: battery_in_range_def lookup_drone_fleet_3 drone_battery_in_range_def
      new_drone_def)

theorem battery_stays_in_range_witness:
  "battery_in_range drone_fleet ''GUARD-03'' \<and>
   battery_in_range (monitor_battery_levels ''t1'' drone_fleet) ''GUARD-03'' \<and>
   map_of (drones drone_fleet) ''GUARD-03'' =
     Some (new_drone (287000 / 10000) (771000 / 10000) 140 15 Active) \<and>
   battery_in_range (store_drone ''GUARD-03''
     (journey_steps (HOME_LAT, HOME_LON) 5
        (new_drone (287000 / 10000) (771000 / 10000) 140 15 Active)) drone_fleet) ''GUARD-03'' \<and>
   battery_in_range (simulate_return_journey ''t1'' ''GUARD-03''
     (calculate_return_path ''GUARD-03'' drone_fleet) drone_fleet) ''GUARD-03''"
  using battery_stays_in_range [OF drone_fleet_3_in_range, of "''t1''"]
    drone_fleet_3_in_range lookup_drone_fleet_3
  by simp

subsection \<open>Re-triggering a unit that is already returning\<close>

lemma journeys_monitor_drone_other:
  "k \<noteq> did \<Longrightarrow> journeys_launched did (monitor_drone now k s) = journeys_launched did s"
  by (simp add: monitor_drone_def journeys_launched_def Let_def tasks_auto_rth
      tasks_emergency_rth split: option.split)

lemma foldl_monitor_returning_journeys:
  "map_of (drones s) did = Some d \<Longrightarrow> status d = Returning \<Longrightarrow>
   journeys_launched did (foldl (\<lambda>acc k. monitor_drone now k acc) s ks) = journeys_launched did s"
proof (induction ks arbitrary: s)
  case Nil
  then show ?case by simp
next
  case (Cons k ks)
  show ?case
  proof (cases "k = did")
    case True
    with Cons.prems have "monitor_drone now k s = s"
      by (simp add: monitor_drone_returning)
    with Cons show ?thesis by simp
  next
    case False
    then have "map_of (drones (monitor_drone now k s)) did = Some d"
      using Cons.prems by (simp add: monitor_drone_other)
    with Cons False show ?thesis by (simp add: journeys_monitor_drone_other)
  qed
qed

text \<open>
  The monitor half of the idempotence: any number of passes of the battery monitor, at
  the times \<open>ts\<close>, leaves the record of a \<open>Returning\<close> unit as it is and launches no
  journey for it.
\<close>

lemma monitor_cycles_leave_returning_unit:
  "map_of (drones s) did = Some d \<Longrightarrow> status d = Returning \<Longrightarrow>
   map_of (drones (foldl (\<lambda>acc t. monitor_battery_levels t acc) s ts)) did = Some d \<and>
   journeys_launched did (foldl (\<lambda>acc t. monitor_battery_levels t acc) s ts) =
     journeys_launched did s"
proof (induction ts arbitrary: s)
  case Nil
  then show ?case by simp
next
  case (Cons t ts)
  have r: "map_of (drones (monitor_battery_levels t s)) did = Some d"
    unfolding monitor_battery_levels_def using Cons.prems by (rule foldl_monitor_returning)
  have j: "journeys_launched did (monitor_battery_levels t s) = journeys_launched did s"
    unfolding monitor_battery_levels_def using Cons.prems
    by (rule foldl_monitor_returning_journeys)
  from Cons.IH [OF r Cons.prems(2)] j show ?case by simp
qed

text \<open>The manual half: the command goes through \<^verbatim>\<open>auto_rth\<close>, which has no guard.\<close>

lemma manual_rth_known_unit:
  assumes "map_of (drones s) did = Some d"
  shows "map_of (drones (snd (manual_rth now did s))) did =
           Some (d\<lparr>returning_home := True, rth_reason := Some Low_battery,
                  rth_initiated := Some now, status := Returning\<rparr>)"
    and "journeys_launched did (snd (manual_rth now did s)) = Suc (journeys_launched did s)"
  using assms
  by (simp_all add: manual_rth_def drones_auto_rth tasks_auto_rth journeys_launched_def)

lemma critical_fleet_after_cycle:
  "map_of (drones (monitor_battery_levels ''t1'' critical_fleet)) ''GUARD-05'' =
     Some ((new_drone (287000 / 10000) (771000 / 10000) 60 8 Active)
         \<lparr>returning_home := True, rth_reason := Some Critical_battery,
          rth_initiated := Some ''t1'', emergency_mode := True, status := Returning\<rparr>)"
  by (rule cycle_emergency(1) [OF lookup_critical_fleet, of 8]) (simp_all add: new_drone_def)

lemma critical_fleet_journeys_after_cycle:
  "journeys_launched ''GUARD-05'' (monitor_battery_levels ''t1'' critical_fleet) = 1"
  by (simp add: monitor_battery_levels_def critical_fleet_def add_drone_def store_drone_def
      empty_fleet_def monitor_drone_def new_drone_def emergency_rth_threshold_def Let_def
      emergency_rth_def send_emergency_rth_command_def notify_operators_def
      journeys_launched_def)

text \<open>
  Claim C4, at a state the controller reaches by itself: the unit GUARD-05, active with
  battery 8, is sent home by one pass of the battery monitor (reason \<open>Critical_battery\<close>,
  one journey launched). A manual command for the same unit, which has not landed,
  succeeds, rewrites the reason to \<open>Low_battery\<close> and launches a second journey.
\<close>

theorem manual_rth_retriggers_returning_unit:
  "map_option status
     (map_of (drones (monitor_battery_levels ''t1'' critical_fleet)) ''GUARD-05'') = Some Returning \<and>
   map_option returning_home
     (map_of (drones (monitor_battery_levels ''t1'' critical_fleet)) ''GUARD-05'') = Some True \<and>
   map_option rth_reason
     (map_of (drones (monitor_battery_levels ''t1'' critical_fleet)) ''GUARD-05'')
     = Some (Some Critical_battery) \<and>
   journeys_launched ''GUARD-05'' (monitor_battery_levels ''t1'' critical_fleet) = 1 \<and>
   fst (manual_rth ''t2'' ''GUARD-05'' (monitor_battery_levels ''t1'' critical_fleet)) = True \<and>
   map_option rth_reason
     (map_of (drones (snd (manual_rth ''t2'' ''GUARD-05''
        (monitor_battery_levels ''t1'' critical_fleet)))) ''GUARD-05'')
     = Some (Some Low_battery) \<and>
   journeys_launched ''GUARD-05''
     (snd (manual_rth ''t2'' ''GUARD-05'' (monitor_battery_levels ''t1'' critical_fleet))) = 2"
  using manual_rth_known_unit [OF critical_fleet_after_cycle, of "''t2''"]
    critical_fleet_after_cycle critical_fleet_journeys_after_cycle
  by (simp add: manual_rth_def)

subsection \<open>Starting the monitors twice\<close>

lemma fleet_start_monitoring_idempotent:
  "monitoring s \<Longrightarrow> DroneFleetManager_start_monitoring s = s"
  by (simp add: DroneFleetManager_start_monitoring_def)

lemma fleet_start_monitoring_twice:
  "DroneFleetManager_start_monitoring (DroneFleetManager_start_monitoring s) =
     DroneFleetManager_start_monitoring s"
  by (simp add: DroneFleetManager_start_monitoring_def)

text \<open>
  Claim C6, at the system as the module creates it. The fleet manager returns at its
  guard when the flag is set (the two lemmas above). The anti-jamming system has no
  guard: after a first start the flag is set and four monitor tasks exist; a second
  start creates four more, so eight run, and the state has changed.
\<close>

theorem anti_jamming_second_start_launches_tasks:
  "is_monitoring (AntiJammingSystem_start_monitoring anti_jamming_system) \<and>
   monitor_tasks (AntiJammingSystem_start_monitoring anti_jamming_system) =
     [Signal_monitor, Network_monitor, Interference_monitor, Gps_monitor] \<and>
   monitor_tasks (AntiJammingSystem_start_monitoring
       (AntiJammingSystem_start_monitoring anti_jamming_system)) =
     [Signal_monitor, Network_monitor, Interference_monitor, Gps_monitor,
      Signal_monitor, Network_monitor, Interference_monitor, Gps_monitor] \<and>
   AntiJammingSystem_start_monitoring (AntiJammingSystem_start_monitoring anti_jamming_system)
     \<noteq> AntiJammingSystem_start_monitoring anti_jamming_system"
  by (simp add: AntiJammingSystem_start_monitoring_def anti_jamming_system_def)

section \<open>Properties of the signal-integrity controller\<close>

subsection \<open>Severity\<close>

lemma severity_score_lookup:
  "jt \<in> {Signal_drop, Network, Rf_interference, Gps} \<Longrightarrow>
   map_of (severity_scores det) jt = Some (spec_score jt det)"
  by (auto simp: severity_scores_def split: option.splits)

lemma severity_is_bucket:
  "jt \<in> {Signal_drop, Network, Rf_interference, Gps} \<Longrightarrow>
   calculate_jamming_severity jt det = spec_bucket (spec_score jt det)"
  by (simp only: calculate_jamming_severity_def severity_score_lookup Let_def option.case)
     (simp add: spec_bucket_def)

lemma spec_bucket_iff:
  "(spec_bucket x = CRITICAL \<longleftrightarrow> 80 \<le> x) \<and>
   (spec_bucket x = HIGH \<longleftrightarrow> 60 \<le> x \<and> x < 80) \<and>
   (spec_bucket x = MEDIUM \<longleftrightarrow> 40 \<le> x \<and> x < 60) \<and>
   (spec_bucket x = LOW \<longleftrightarrow> x < 40)"
  by (simp add: spec_bucket_def)

text \<open>
  Claim C3. For an event of one of the four types, the severity the code computes is
  the bucket of the score that the specification gives for the type: CRITICAL exactly
  when the score is at least 80, HIGH exactly from 60 up to 80, MEDIUM exactly from 40
  up to 60, LOW exactly below 40. On network payloads whose score is 80, 79.999, 60,
  59.999, 40 and 39.999 the code answers CRITICAL, HIGH, HIGH, MEDIUM, MEDIUM and LOW.
\<close>

theorem calculate_jamming_severity_buckets:
  "(jt \<in> {Signal_drop, Network, Rf_interference, Gps} \<longrightarrow>
      calculate_jamming_severity jt det = spec_bucket (spec_score jt det) \<and>
      (calculate_jamming_severity jt det = CRITICAL \<longleftrightarrow> 80 \<le> spec_score jt det) \<and>
      (calculate_jamming_severity jt det = HIGH \<longleftrightarrow>
         60 \<le> spec_score jt det \<and> spec_score jt det < 80) \<and>
      (calculate_jamming_severity jt det = MEDIUM \<longleftrightarrow>
         40 \<le> spec_score jt det \<and> spec_score jt det < 60) \<and>
      (calculate_jamming_severity jt det = LOW \<longleftrightarrow> spec_score jt det < 40)) \<and>
   calculate_jamming_severity Network (loss_of (5 * 80)) = CRITICAL \<and>
   calculate_jamming_severity Network (loss_of (5 * (79999 / 1000))) = HIGH \<and>
   calculate_jamming_severity Network (loss_of (5 * 60)) = HIGH \<and>
   calculate_jamming_severity Network (loss_of (5 * (59999 / 1000))) = MEDIUM \<and>
   calculate_jamming_severity Network (loss_of (5 * 40)) = MEDIUM \<and>
   calculate_jamming_severity Network (loss_of (5 * (39999 / 1000))) = LOW"
proof (intro conjI impI)
  assume jt: "jt \<in> {Signal_drop, Network, Rf_interference, Gps}"
  then show b: "calculate_jamming_severity jt det = spec_bucket (spec_score jt det)"
    by (rule severity_is_bucket)
  show "calculate_jamming_severity jt det = CRITICAL \<longleftrightarrow> 80 \<le> spec_score jt det"
    unfolding b using spec_bucket_iff by blast
  show "calculate_jamming_severity jt det = HIGH \<longleftrightarrow>
          60 \<le> spec_score jt det \<and> spec_score jt det < 80"
    unfolding b using spec_bucket_iff by blast
  show "calculate_jamming_severity jt det = MEDIUM \<longleftrightarrow>
          40 \<le> spec_score jt det \<and> spec_score jt det < 60"
    unfolding b using spec_bucket_iff by blast
  show "calculate_jamming_severity jt det = LOW \<longleftrightarrow> spec_score jt det < 40"
    unfolding b using spec_bucket_iff by blast
qed (simp_all add: calculate_jamming_severity_def severity_scores_def loss_of_def no_details_def)

theorem calculate_jamming_severity_buckets_witness:
  "Network \<in> {Signal_drop, Network, Rf_interference, Gps} \<and>
   spec_score Network (loss_of 20) = 4 \<and>
   calculate_jamming_severity Network (loss_of 20) = LOW \<and>
   Gps \<in> {Signal_drop, Network, Rf_interference, Gps} \<and>
   spec_score Gps (no_details\<lparr>available := Some False\<rparr>) = 80 \<and>
   calculate_jamming_severity Gps (no_details\<lparr>available := Some False\<rparr>) = CRITICAL"
proof -
  have n: "spec_score Network (loss_of 20) = 4"
    by (simp add: loss_of_def no_details_def)
  have g: "spec_score Gps (no_details\<lparr>available := Some False\<rparr>) = 80"
    by (simp add: no_details_def)
  from calculate_jamming_severity_buckets [of Network "loss_of 20"] n
  have "calculate_jamming_severity Network (loss_of 20) = LOW"
    by (simp add: spec_bucket_def)
  moreover
  from calculate_jamming_severity_buckets [of Gps "no_details\<lparr>available := Some False\<rparr>"] g
  have "calculate_jamming_severity Gps (no_details\<lparr>available := Some False\<rparr>) = CRITICAL"
    by (simp add: spec_bucket_def)
  ultimately show ?thesis using n g by simp
qed

subsection \<open>The coordinator and its cooldown\<close>

lemma event_type_new_jamming_event [simp]:
  "event_type (new_jamming_event now jt det) = jt"
  by (simp add: new_jamming_event_def)

lemma handle_while_active:
  "jamming_detected s \<Longrightarrow> handle_potential_jamming write_ok now jt det s = (Dropped, s)"
  by (simp add: handle_potential_jamming_def)

lemma jam_run_breaches_while_active:
  "jamming_detected s \<Longrightarrow> list_all is_breach acts \<Longrightarrow> jam_run s acts = s"
  unfolding jam_run_def
proof (induction acts)
  case Nil
  then show ?case by simp
next
  case (Cons a acts)
  then show ?case by (cases a) (simp_all add: handle_while_active)
qed

lemma jam_run_stuck:
  "jamming_detected s \<Longrightarrow> cooldowns_pending s = 0 \<Longrightarrow> jam_run s acts = s"
  unfolding jam_run_def
proof (induction acts)
  case Nil
  then show ?case by simp
next
  case (Cons a acts)
  then show ?case by (cases a) (simp_all add: handle_while_active cooldown_elapsed_def)
qed

lemma handle_write_ok:
  assumes "\<not> jamming_detected s"
  shows "fst (handle_potential_jamming True now jt det s) = Cooldown_started"
    and "jamming_detected (snd (handle_potential_jamming True now jt det s))"
    and "countermeasure_runs (snd (handle_potential_jamming True now jt det s)) =
           countermeasure_runs s @ [new_jamming_event now jt det]"
    and "notified (snd (handle_potential_jamming True now jt det s)) =
           notified s @ map (\<lambda>callback. (callback, new_jamming_event now jt det))
             (alert_callbacks s)"
    and "cooldowns_pending (snd (handle_potential_jamming True now jt det s)) =
           Suc (cooldowns_pending s)"
  using assms
  by (simp_all add: handle_potential_jamming_def activate_countermeasures_def
      store_jamming_evidence_def notify_callbacks_def switch_to_backup_channel_def Let_def
      split: list.split)

lemma handle_write_failed:
  assumes "\<not> jamming_detected s"
  shows "fst (handle_potential_jamming False now jt det s) = Raised Evidence_write_failed"
    and "jamming_detected (snd (handle_potential_jamming False now jt det s))"
    and "notified (snd (handle_potential_jamming False now jt det s)) = notified s"
    and "evidence_files (snd (handle_potential_jamming False now jt det s)) = evidence_files s"
    and "cooldowns_pending (snd (handle_potential_jamming False now jt det s)) =
           cooldowns_pending s"
  using assms
  by (simp_all add: handle_potential_jamming_def activate_countermeasures_def
      store_jamming_evidence_def notify_callbacks_def switch_to_backup_channel_def Let_def
      split: list.split)

lemma handle_creates_event:
  assumes "\<not> jamming_detected s"
  shows "created_events (snd (handle_potential_jamming write_ok now jt det s)) =
           created_events s @ [new_jamming_event now jt det]"
  using assms
  by (simp add: handle_potential_jamming_def activate_countermeasures_def
      store_jamming_evidence_def notify_callbacks_def switch_to_backup_channel_def Let_def
      split: list.split)

lemma cooldown_elapsed_clears:
  "0 < cooldowns_pending s \<Longrightarrow>
   \<not> jamming_detected (cooldown_elapsed s) \<and>
   created_events (cooldown_elapsed s) = created_events s \<and>
   notified (cooldown_elapsed s) = notified s \<and>
   countermeasure_runs (cooldown_elapsed s) = countermeasure_runs s"
  by (simp add: cooldown_elapsed_def)

text \<open>
  The debounce in both of its halves. While the flag is set, a breach of any type and
  with any payload is dropped: the handler returns with the whole system unchanged, so
  no event is created, no countermeasure runs and no callback is called, and so does any
  run of breaches. From a system whose flag is clear, a first breach whose evidence is
  written reaches its cooldown sleep; followed by any breaches \<open>acts\<close> inside the
  cooldown it leaves exactly one new event, one countermeasure run and one call of each
  registered callback; once the cooldown has elapsed the flag is clear and the next
  breach creates a second event.
\<close>

lemma debounce_when_evidence_is_written:
  "(jamming_detected s \<longrightarrow>
      handle_potential_jamming write_ok now jt det s = (Dropped, s) \<and>
      (list_all is_breach acts \<longrightarrow> jam_run s acts = s)) \<and>
   (\<not> jamming_detected s \<and> list_all is_breach acts \<longrightarrow>
      jamming_detected (jam_step s (Breach True t1 jt1 det1)) \<and>
      jam_run (jam_step s (Breach True t1 jt1 det1)) acts = jam_step s (Breach True t1 jt1 det1) \<and>
      created_events (jam_run (jam_step s (Breach True t1 jt1 det1)) acts) =
        created_events s @ [new_jamming_event t1 jt1 det1] \<and>
      countermeasure_runs (jam_run (jam_step s (Breach True t1 jt1 det1)) acts) =
        countermeasure_runs s @ [new_jamming_event t1 jt1 det1] \<and>
      notified (jam_run (jam_step s (Breach True t1 jt1 det1)) acts) =
        notified s @ map (\<lambda>callback. (callback, new_jamming_event t1 jt1 det1))
          (alert_callbacks s) \<and>
      \<not> jamming_detected
          (jam_step (jam_run (jam_step s (Breach True t1 jt1 det1)) acts) Cooldown_elapsed) \<and>
      created_events
          (jam_step (jam_step (jam_run (jam_step s (Breach True t1 jt1 det1)) acts)
             Cooldown_elapsed) (Breach w3 t3 jt3 det3)) =
        created_events s @ [new_jamming_event t1 jt1 det1, new_jamming_event t3 jt3 det3])"
proof (intro conjI impI)
  assume "jamming_detected s"
  then show "handle_potential_jamming write_ok now jt det s = (Dropped, s)"
    by (rule handle_while_active)
next
  assume "jamming_detected s" and "list_all is_breach acts"
  then show "jam_run s acts = s"
    by (rule jam_run_breaches_while_active)
next
  assume a: "\<not> jamming_detected s \<and> list_all is_breach acts"
  then have idle: "\<not> jamming_detected s" and br: "list_all is_breach acts"
    by simp_all
  let ?s1 = "jam_step s (Breach True t1 jt1 det1)"
  have s1: "?s1 = snd (handle_potential_jamming True t1 jt1 det1 s)"
    by simp
  show act: "jamming_detected ?s1"
    unfolding s1 using idle by (rule handle_write_ok(2))
  show same: "jam_run ?s1 acts = ?s1"
    using act br by (rule jam_run_breaches_while_active)
  have ev: "created_events ?s1 = created_events s @ [new_jamming_event t1 jt1 det1]"
    unfolding s1 using idle by (rule handle_creates_event)
  show "created_events (jam_run ?s1 acts) = created_events s @ [new_jamming_event t1 jt1 det1]"
    unfolding same by (rule ev)
  show "countermeasure_runs (jam_run ?s1 acts) =
          countermeasure_runs s @ [new_jamming_event t1 jt1 det1]"
    using handle_write_ok(3) [OF idle, of t1 jt1 det1] same by simp
  show "notified (jam_run ?s1 acts) =
          notified s @ map (\<lambda>callback. (callback, new_jamming_event t1 jt1 det1))
            (alert_callbacks s)"
    using handle_write_ok(4) [OF idle, of t1 jt1 det1] same by simp
  have pend: "0 < cooldowns_pending ?s1"
    unfolding s1 using handle_write_ok(5) [OF idle] by simp
  from cooldown_elapsed_clears [OF pend]
  have clear: "\<not> jamming_detected (cooldown_elapsed ?s1)"
    and keep: "created_events (cooldown_elapsed ?s1) = created_events ?s1"
    by simp_all
  show "\<not> jamming_detected (jam_step (jam_run ?s1 acts) Cooldown_elapsed)"
    unfolding same using clear by simp
  have "created_events (snd (handle_potential_jamming w3 t3 jt3 det3 (cooldown_elapsed ?s1))) =
          created_events (cooldown_elapsed ?s1) @ [new_jamming_event t3 jt3 det3]"
    using clear by (rule handle_creates_event)
  then show "created_events
          (jam_step (jam_step (jam_run ?s1 acts) Cooldown_elapsed) (Breach w3 t3 jt3 det3)) =
        created_events s @ [new_jamming_event t1 jt1 det1, new_jamming_event t3 jt3 det3]"
    unfolding same using keep ev by simp
qed

lemma app_system_idle: "\<not> jamming_detected app_system"
  by (simp add: app_system_def register_alert_callback_def anti_jamming_system_def)

lemma app_system_fields:
  "created_events app_system = []" "notified app_system = []"
  "alert_callbacks app_system = [0]" "countermeasure_runs app_system = []"
  "cooldowns_pending app_system = 0"
  by (simp_all add: app_system_def register_alert_callback_def anti_jamming_system_def)

lemma debounce_when_evidence_is_written_example:
  "\<not> jamming_detected app_system \<and>
   list_all is_breach [Breach True ''t2'' Gps no_details, Breach False ''t3'' Network total_loss] \<and>
   created_events
     (jam_run (jam_step app_system (Breach True ''t1'' Network total_loss))
        [Breach True ''t2'' Gps no_details, Breach False ''t3'' Network total_loss]) =
     [new_jamming_event ''t1'' Network total_loss] \<and>
   notified
     (jam_run (jam_step app_system (Breach True ''t1'' Network total_loss))
        [Breach True ''t2'' Gps no_details, Breach False ''t3'' Network total_loss]) =
     [(0, new_jamming_event ''t1'' Network total_loss)] \<and>
   created_events
     (jam_step (jam_step
        (jam_run (jam_step app_system (Breach True ''t1'' Network total_loss))
           [Breach True ''t2'' Gps no_details, Breach False ''t3'' Network total_loss])
        Cooldown_elapsed) (Breach True ''t4'' Rf_interference no_details)) =
     [new_jamming_event ''t1'' Network total_loss,
      new_jamming_event ''t4'' Rf_interference no_details] \<and>
   jamming_detected (jam_step app_system (Breach True ''t1'' Network total_loss)) \<and>
   handle_potential_jamming True ''t2'' Gps no_details
     (jam_step app_system (Breach True ''t1'' Network total_loss)) =
     (Dropped, jam_step app_system (Breach True ''t1'' Network total_loss))"
proof -
  let ?acts = "[Breach True ''t2'' Gps no_details, Breach False ''t3'' Network total_loss]"
  have br: "list_all is_breach ?acts" by simp
  note a = debounce_when_evidence_is_written [where s = app_system and acts = ?acts and ?t1.0 = "''t1''"
      and ?jt1.0 = Network and ?det1.0 = total_loss and ?w3.0 = True and ?t3.0 = "''t4''"
      and ?jt3.0 = Rf_interference and ?det3.0 = no_details]
  have act: "jamming_detected (jam_step app_system (Breach True ''t1'' Network total_loss))"
    using a app_system_idle br by blast
  note b = debounce_when_evidence_is_written [where s = "jam_step app_system (Breach True ''t1'' Network total_loss)"
      and write_ok = True and now = "''t2''" and jt = Gps and det = no_details]
  have "handle_potential_jamming True ''t2'' Gps no_details
     (jam_step app_system (Breach True ''t1'' Network total_loss)) =
     (Dropped, jam_step app_system (Breach True ''t1'' Network total_loss))"
    using b act by blast
  moreover have "created_events (jam_run (jam_step app_system (Breach True ''t1'' Network total_loss))
        ?acts) = [new_jamming_event ''t1'' Network total_loss]"
    using a app_system_idle br app_system_fields(1) by auto
  moreover have "notified (jam_run (jam_step app_system (Breach True ''t1'' Network total_loss))
        ?acts) = [(0, new_jamming_event ''t1'' Network total_loss)]"
    using a app_system_idle br app_system_fields(2,3) by auto
  moreover have "created_events
     (jam_step (jam_step
        (jam_run (jam_step app_system (Breach True ''t1'' Network total_loss)) ?acts)
        Cooldown_elapsed) (Breach True ''t4'' Rf_interference no_details)) =
     [new_jamming_event ''t1'' Network total_loss,
      new_jamming_event ''t4'' Rf_interference no_details]"
    using a app_system_idle br app_system_fields(1) by auto
  ultimately show ?thesis
    using app_system_idle br act by blast
qed

lemma jam_run_Cons: "jam_run s (a # acts) = jam_run (jam_step s a) acts"
  by (simp add: jam_run_def)

lemma jam_run_Nil: "jam_run s [] = s"
  by (simp add: jam_run_def)

text \<open>
  Claim C2, at the system of the application (one callback registered, flag clear),
  when the evidence file of the first breach cannot be written. The first breach
  creates its event and sets the flag; the second breach, inside the 30 seconds that
  would be the cooldown, is dropped, so one event exists, but no callback has been
  called: there is no dispatch where the claim has exactly one. When the 30 seconds
  have passed the flag is still set, and the third breach is dropped as well: there is
  no second event where the claim has one.
\<close>

theorem debounce_after_failed_evidence_write:
  "alert_callbacks app_system = [0] \<and>
   created_events
     (jam_run app_system
        [Breach False ''t1'' Network total_loss, Breach True ''t2'' Gps no_details]) =
     [new_jamming_event ''t1'' Network total_loss] \<and>
   notified
     (jam_run app_system
        [Breach False ''t1'' Network total_loss, Breach True ''t2'' Gps no_details]) = [] \<and>
   jamming_detected
     (jam_run app_system
        [Breach False ''t1'' Network total_loss, Breach True ''t2'' Gps no_details,
         Cooldown_elapsed]) \<and>
   created_events
     (jam_run app_system
        [Breach False ''t1'' Network total_loss, Breach True ''t2'' Gps no_details,
         Cooldown_elapsed, Breach True ''t3'' Rf_interference no_details]) =
     [new_jamming_event ''t1'' Network total_loss]"
proof -
  let ?s = "jam_step app_system (Breach False ''t1'' Network total_loss)"
  have s: "?s = snd (handle_potential_jamming False ''t1'' Network total_loss app_system)"
    by simp
  note f = handle_write_failed [OF app_system_idle, of "''t1''" Network total_loss]
  have flag: "jamming_detected ?s"
    unfolding s by (rule f(2))
  have pend: "cooldowns_pending ?s = 0"
    unfolding s using f(5) app_system_fields(5) by simp
  have stuck: "jam_run ?s acts = ?s" for acts
    using flag pend by (rule jam_run_stuck)
  have ev: "created_events ?s = [new_jamming_event ''t1'' Network total_loss]"
    unfolding s
    using handle_creates_event [OF app_system_idle, of False "''t1''" Network total_loss]
      app_system_fields(1) by simp
  have nt: "notified ?s = []"
    unfolding s using f(3) app_system_fields(2) by simp
  show ?thesis
    unfolding jam_run_Cons [of app_system] stuck
    using ev nt flag app_system_fields(3) by blast
qed

text \<open>
  Claim C5, at the system of the application (one callback registered, flag clear),
  for a network breach whose evidence file cannot be written. The exception leaves the
  handler: the event has been created and the flag set, but no callback is called, no
  cooldown sleep is started, and nothing is left that would clear the flag. Whatever
  happens to the coordinator afterwards, breaches or elapsed cooldowns, the system stays
  exactly as it is: the flag stays set and no further event is ever created.
\<close>

theorem evidence_write_failure_leaves_flag_set:
  "fst (handle_potential_jamming False ''t1'' Network total_loss app_system) =
     Raised Evidence_write_failed \<and>
   jamming_detected (snd (handle_potential_jamming False ''t1'' Network total_loss app_system)) \<and>
   created_events (snd (handle_potential_jamming False ''t1'' Network total_loss app_system)) =
     [new_jamming_event ''t1'' Network total_loss] \<and>
   notified (snd (handle_potential_jamming False ''t1'' Network total_loss app_system)) = [] \<and>
   cooldowns_pending (snd (handle_potential_jamming False ''t1'' Network total_loss app_system)) = 0 \<and>
   (\<forall>acts.
      jam_run (snd (handle_potential_jamming False ''t1'' Network total_loss app_system)) acts =
        snd (handle_potential_jamming False ''t1'' Network total_loss app_system))"
proof -
  let ?s = "snd (handle_potential_jamming False ''t1'' Network total_loss app_system)"
  note f = handle_write_failed [OF app_system_idle, of "''t1''" Network total_loss]
  have flag: "jamming_detected ?s" by (rule f(2))
  have pend: "cooldowns_pending ?s = 0"
    using f(5) app_system_fields(5) by simp
  have "\<forall>acts. jam_run ?s acts = ?s"
    using flag pend by (simp add: jam_run_stuck)
  moreover have "created_events ?s = [new_jamming_event ''t1'' Network total_loss]"
    using handle_creates_event [OF app_system_idle, of False "''t1''" Network total_loss]
      app_system_fields(1) by simp
  moreover have "notified ?s = []"
    using f(3) app_system_fields(2) by simp
  ultimately show ?thesis
    using f(1) flag pend by blast
qed

text \<open>
  The same breach with a successful write, for comparison: the handler reaches its
  sleep, and the end of the cooldown clears the flag.
\<close>

lemma evidence_write_success_clears_flag:
  "fst (handle_potential_jamming True ''t1'' Network total_loss app_system) = Cooldown_started \<and>
   \<not> jamming_detected
       (cooldown_elapsed (snd (handle_potential_jamming True ''t1'' Network total_loss app_system)))"
  using handle_write_ok [OF app_system_idle, of "''t1''" Network total_loss]
  by (simp add: cooldown_elapsed_def)

text \<open>
  The sibling write of the fleet manager catches its failure: the emergency log may be
  lost, the drones are as they were, and nothing is raised.
\<close>

lemma emergency_log_failure_is_caught:
  "emergency_landing_procedures False now did s = s"
  by (simp add: emergency_landing_procedures_def split: option.split)

subsection \<open>The interference estimate\<close>

lemma np_var_nonneg: "0 \<le> np_var xs"
  unfolding np_var_def np_mean_def
  by (intro divide_nonneg_nonneg sum_list_nonneg) auto

lemma np_var_single: "np_var [x] = 0"
  by (simp add: np_var_def np_mean_def)

lemma np_var_short: "length xs < 2 \<Longrightarrow> np_var xs = 0"
proof (cases xs)
  case Nil
  then show ?thesis by (simp add: np_var_def np_mean_def)
next
  case (Cons x ys)
  assume "length xs < 2"
  with Cons have "ys = []" by simp
  with Cons show ?thesis by (simp add: np_var_single)
qed

lemma detect_rf_interference_cases:
  "detect_rf_interference s =
     (if length (signal_strength_history s) < 10 then 1 / 10
      else if wifi_values (take_last 10 (signal_strength_history s)) = [] then 1 / 2
      else min (np_var (wifi_values (take_last 10 (signal_strength_history s))) / 100) 1)"
  by (simp add: detect_rf_interference_def Let_def)

lemma detect_rf_interference_range:
  "0 \<le> detect_rf_interference s \<and> detect_rf_interference s \<le> 1"
  using np_var_nonneg [of "wifi_values (take_last 10 (signal_strength_history s))"]
  by (simp add: detect_rf_interference_cases)

lemma detect_rf_interference_breach:
  assumes "interference_threshold < detect_rf_interference s"
  shows "10 \<le> length (signal_strength_history s) \<and>
         2 \<le> length (wifi_values (take_last 10 (signal_strength_history s)))"
proof -
  let ?r = "wifi_values (take_last 10 (signal_strength_history s))"
  have len: "10 \<le> length (signal_strength_history s)"
  proof (rule ccontr)
    assume "\<not> 10 \<le> length (signal_strength_history s)"
    then have "detect_rf_interference s = 1 / 10"
      by (simp add: detect_rf_interference_cases)
    with assms show False by (simp add: interference_threshold_def)
  qed
  have "2 \<le> length ?r"
  proof (rule ccontr)
    assume "\<not> 2 \<le> length ?r"
    then have "np_var ?r = 0" by (simp add: np_var_short)
    then have "detect_rf_interference s \<le> 1 / 2"
      using len by (simp add: detect_rf_interference_cases)
    with assms show False by (simp add: interference_threshold_def)
  qed
  with len show ?thesis by simp
qed

text \<open>
  Claim C10, as the code has it. The estimate is always between 0 and 1. It is 0.1 while
  fewer than 10 samples have accumulated, 0.5 when the last 10 samples carry no wifi value,
  and otherwise the variance of the wifi values among the last 10 samples, divided by
  100 and capped at 1. It exceeds the threshold 0.8 only when at least 10 samples have
  accumulated and at least two of the last 10 carry a wifi value; in every other state
  one pass of the interference monitor reports no breach and leaves the system as it is.
\<close>

theorem detect_rf_interference_bounds:
  "0 \<le> detect_rf_interference s \<and> detect_rf_interference s \<le> 1 \<and>
   (length (signal_strength_history s) < 10 \<longrightarrow> detect_rf_interference s = 1 / 10) \<and>
   (10 \<le> length (signal_strength_history s) \<and>
      wifi_values (take_last 10 (signal_strength_history s)) = [] \<longrightarrow>
      detect_rf_interference s = 1 / 2) \<and>
   (10 \<le> length (signal_strength_history s) \<and>
      wifi_values (take_last 10 (signal_strength_history s)) \<noteq> [] \<longrightarrow>
      detect_rf_interference s =
        min (np_var (wifi_values (take_last 10 (signal_strength_history s))) / 100) 1) \<and>
   (interference_threshold < detect_rf_interference s \<longrightarrow>
      10 \<le> length (signal_strength_history s) \<and>
      2 \<le> length (wifi_values (take_last 10 (signal_strength_history s)))) \<and>
   (length (signal_strength_history s) < 10 \<or>
      length (wifi_values (take_last 10 (signal_strength_history s))) < 2 \<longrightarrow>
      detect_rf_interference s < interference_threshold \<and>
      monitor_interference write_ok now s = s)"
proof (intro conjI impI)
  show "0 \<le> detect_rf_interference s" "detect_rf_interference s \<le> 1"
    using detect_rf_interference_range by simp_all
next
  assume "length (signal_strength_history s) < 10"
  then show "detect_rf_interference s = 1 / 10"
    by (simp add: detect_rf_interference_cases)
next
  assume "10 \<le> length (signal_strength_history s) \<and>
      wifi_values (take_last 10 (signal_strength_history s)) = []"
  then show "detect_rf_interference s = 1 / 2"
    by (simp add: detect_rf_interference_cases)
next
  assume "10 \<le> length (signal_strength_history s) \<and>
      wifi_values (take_last 10 (signal_strength_history s)) \<noteq> []"
  then show "detect_rf_interference s =
        min (np_var (wifi_values (take_last 10 (signal_strength_history s))) / 100) 1"
    by (simp add: detect_rf_interference_cases)
next
  assume b: "interference_threshold < detect_rf_interference s"
  from detect_rf_interference_breach [OF b]
  show "10 \<le> length (signal_strength_history s)"
    and "2 \<le> length (wifi_values (take_last 10 (signal_strength_history s)))"
    by simp_all
next
  assume few: "length (signal_strength_history s) < 10 \<or>
      length (wifi_values (take_last 10 (signal_strength_history s))) < 2"
  have le: "detect_rf_interference s \<le> 1 / 2"
  proof (cases "length (signal_strength_history s) < 10")
    case True
    then show ?thesis by (simp add: detect_rf_interference_cases)
  next
    case False
    with few have "np_var (wifi_values (take_last 10 (signal_strength_history s))) = 0"
      by (simp add: np_var_short)
    then show ?thesis by (simp add: detect_rf_interference_cases)
  qed
  then show lt: "detect_rf_interference s < interference_threshold"
    by (simp add: interference_threshold_def)
  then show "monitor_interference write_ok now s = s"
    by (simp add: monitor_interference_def Let_def)
qed

lemma fresh_system_history: "signal_strength_history anti_jamming_system = []"
  by (simp add: anti_jamming_system_def)

lemma sparse_system_history:
  "signal_strength_history sparse_system = map sample_of [0, 0, 0, 0, 0, 0, 0, 0, 45, 80]"
  by (simp add: sparse_system_def)

lemma sparse_system_recent:
  "wifi_values (take_last 10 (signal_strength_history sparse_system)) = [45, 80]"
  by (simp add: sparse_system_history take_last_def sample_of_def)

theorem detect_rf_interference_bounds_witness:
  "length (signal_strength_history anti_jamming_system) < 10 \<and>
   detect_rf_interference anti_jamming_system = 1 / 10 \<and>
   detect_rf_interference anti_jamming_system < interference_threshold \<and>
   monitor_interference True ''t1'' anti_jamming_system = anti_jamming_system \<and>
   10 \<le> length (signal_strength_history sparse_system) \<and>
   wifi_values (take_last 10 (signal_strength_history sparse_system)) \<noteq> [] \<and>
   detect_rf_interference sparse_system =
     min (np_var (wifi_values (take_last 10 (signal_strength_history sparse_system))) / 100) 1"
proof -
  have short: "length (signal_strength_history anti_jamming_system) < 10"
    by (simp add: fresh_system_history)
  have long: "10 \<le> length (signal_strength_history sparse_system)"
    by (simp add: sparse_system_history)
  have ne: "wifi_values (take_last 10 (signal_strength_history sparse_system)) \<noteq> []"
    by (simp add: sparse_system_recent)
  note a = detect_rf_interference_bounds [of anti_jamming_system True "''t1''"]
  note b = detect_rf_interference_bounds [of sparse_system True "''t1''"]
  from a short have "detect_rf_interference anti_jamming_system = 1 / 10"
    and "detect_rf_interference anti_jamming_system < interference_threshold"
    and "monitor_interference True ''t1'' anti_jamming_system = anti_jamming_system"
    by blast+
  moreover from b long ne have "detect_rf_interference sparse_system =
     min (np_var (wifi_values (take_last 10 (signal_strength_history sparse_system))) / 100) 1"
    by blast
  ultimately show ?thesis using short long ne by blast
qed

text \<open>
  The claim as worded makes a breach impossible until at least 10 samples with wifi
  values exist. In a history of 10 samples of which 8 read 0, which the code drops as
  having no wifi value, and 2 read 45 and 80, only two samples with wifi values exist,
  and the estimate is 1, above the threshold.
\<close>

theorem sparse_history_breach_counterexample:
  "length (signal_strength_history sparse_system) = 10 \<and>
   length (wifi_values (signal_strength_history sparse_system)) = 2 \<and>
   detect_rf_interference sparse_system = 1 \<and>
   interference_threshold < detect_rf_interference sparse_system"
proof -
  have v: "np_var [45, 80] = 1225 / 4"
    by (simp add: np_var_def np_mean_def power2_eq_square)
  have d: "detect_rf_interference sparse_system = 1"
    by (simp add: detect_rf_interference_cases sparse_system_recent v)
      (simp add: sparse_system_history)
  have "length (wifi_values (signal_strength_history sparse_system)) = 2"
    by (simp add: sparse_system_history sample_of_def)
  with d show ?thesis
    by (simp add: sparse_system_history interference_threshold_def)
qed

end
